theory Spec2Isabelle
  imports Complex_Main "HOL-Library.Word"
begin

section \<open>JavaScript values used by the benchmark runner\<close>

subsection \<open>Strings\<close>

text \<open>
  A JavaScript string is a sequence of 16-bit code units; \<open>conteudo.length\<close> counts code
  units.  File contents are modelled that way.  Benchmark names, paths and error messages
  are only passed around, so they are plain HOL strings.
\<close>

type_synonym code_unit = "16 word"
type_synonym jsstring = "code_unit list"

definition LF :: code_unit where
  "LF = 0x0A"

text \<open>
  \<open>String.prototype.trim\<close> removes ECMAScript WhiteSpace and LineTerminator code points
  from both ends: TAB, VT, FF, SP, NBSP, ZWNBSP, the Unicode space separators, and LF, CR,
  LS, PS.  All of them are single code units.
\<close>

definition isTrimmed :: "code_unit \<Rightarrow> bool" where
  "isTrimmed c \<longleftrightarrow>
     c = 0x0009 \<or> c = 0x000A \<or> c = 0x000B \<or> c = 0x000C \<or> c = 0x000D \<or> c = 0x0020 \<or>
     c = 0x00A0 \<or> c = 0x1680 \<or> (0x2000 \<le> c \<and> c \<le> 0x200A) \<or> c = 0x2028 \<or> c = 0x2029 \<or>
     c = 0x202F \<or> c = 0x205F \<or> c = 0x3000 \<or> c = 0xFEFF"

definition trim :: "jsstring \<Rightarrow> jsstring" where
  "trim s = rev (dropWhile isTrimmed (rev (dropWhile isTrimmed s)))"

text \<open>
  \<open>conteudo.split('\n')\<close>: \<open>cur\<close> is the line being collected.  The result always has
  one more element than the text has separators.
\<close>

fun splitFrom :: "jsstring \<Rightarrow> jsstring \<Rightarrow> jsstring list" where
  "splitFrom cur [] = [cur]"
| "splitFrom cur (c # cs) =
     (if c = LF then cur # splitFrom [] cs else splitFrom (cur @ [c]) cs)"

definition split :: "jsstring \<Rightarrow> jsstring list" where
  "split s = splitFrom [] s"

text \<open>
  \<open>Buffer.byteLength(conteudo, 'utf8')\<close>: a code unit below 0x80 takes one byte, below
  0x800 two; a high surrogate followed by a low surrogate encodes one supplementary code
  point in four bytes; every other code unit (a lone surrogate is written as U+FFFD) takes
  three.
\<close>

definition isHighSurrogate :: "code_unit \<Rightarrow> bool" where
  "isHighSurrogate c \<longleftrightarrow> 0xD800 \<le> c \<and> c \<le> 0xDBFF"

definition isLowSurrogate :: "code_unit \<Rightarrow> bool" where
  "isLowSurrogate c \<longleftrightarrow> 0xDC00 \<le> c \<and> c \<le> 0xDFFF"

definition unitBytes :: "code_unit \<Rightarrow> nat" where
  "unitBytes c = (if c < 0x80 then 1 else if c < 0x800 then 2 else 3)"

fun byteLength :: "jsstring \<Rightarrow> nat" where
  "byteLength [] = 0"
| "byteLength [c] = unitBytes c"
| "byteLength (c # d # cs) =
     (if isHighSurrogate c \<and> isLowSurrogate d then 4 + byteLength cs
      else unitBytes c + byteLength (d # cs))"

text \<open>\<open>path.basename\<close> (POSIX): the last component, trailing slashes dropped.\<close>

definition basename :: "string \<Rightarrow> string" where
  "basename p =
     rev (takeWhile (\<lambda>c. c \<noteq> CHR ''/'') (dropWhile (\<lambda>c. c = CHR ''/'') (rev p)))"

subsection \<open>Numbers\<close>

text \<open>
  Byte counts and line counts are integers.  Durations and quotients are JavaScript
  numbers, that is IEEE 754 binary64 values.  A finite one is modelled by the rational
  it denotes (the sign of zero is not kept); the others are \<open>Infinity\<close>, \<open>-Infinity\<close> and
  \<open>NaN\<close>.
\<close>

datatype number = Finite rat | PosInfinity | NegInfinity | NaN

text \<open>\<open>pow2 e\<close> is 2 to the power \<open>e\<close>, for any integer \<open>e\<close>.\<close>

definition pow2 :: "int \<Rightarrow> rat" where
  "pow2 e = (if 0 \<le> e then 2 ^ nat e else 1 / 2 ^ nat (- e))"

text \<open>The binary exponent of a positive rational: \<open>pow2 e \<le> x < pow2 (e + 1)\<close>.\<close>

function log2Floor :: "rat \<Rightarrow> int" where
  "log2Floor x =
     (if 2 \<le> x then log2Floor (x / 2) + 1
      else if 0 < x \<and> x < 1 then log2Floor (x * 2) - 1
      else 0)"
  by pat_completeness auto
termination
proof (relation "measure (\<lambda>x. if 1 \<le> x then nat \<lfloor>x\<rfloor> else nat \<lceil>1 / x\<rceil>)")
  show "wf (measure (\<lambda>x::rat. if 1 \<le> x then nat \<lfloor>x\<rfloor> else nat \<lceil>1 / x\<rceil>))" by simp
next
  fix x :: rat
  assume a: "2 \<le> x"
  have "\<lfloor>x / 2\<rfloor> < \<lfloor>x\<rfloor>"
  proof -
    have "x / 2 \<le> x - 1" using a by simp
    then have "\<lfloor>x / 2\<rfloor> \<le> \<lfloor>x - 1\<rfloor>" by (rule floor_mono)
    then show ?thesis by simp
  qed
  moreover have "0 < \<lfloor>x\<rfloor>" using a by simp
  ultimately show "(x / 2, x) \<in> measure (\<lambda>x. if 1 \<le> x then nat \<lfloor>x\<rfloor> else nat \<lceil>1 / x\<rceil>)"
    using a by simp
next
  fix x :: rat
  assume "\<not> 2 \<le> x" and b: "0 < x \<and> x < 1"
  then have x: "0 < x" "x < 1" by simp_all
  show "(x * 2, x) \<in> measure (\<lambda>x. if 1 \<le> x then nat \<lfloor>x\<rfloor> else nat \<lceil>1 / x\<rceil>)"
  proof (cases "1 \<le> x * 2")
    case True
    have "x * 2 < 2" using x by simp
    then have A: "\<lfloor>x * 2\<rfloor> < 2" by (simp add: floor_less_iff)
    have "1 < 1 / x" using x by simp
    then have B: "2 \<le> \<lceil>1 / x\<rceil>" by (simp add: le_ceiling_iff)
    from A B have "nat \<lfloor>x * 2\<rfloor> < nat \<lceil>1 / x\<rceil>" by linarith
    then show ?thesis using True x by simp
  next
    case False
    then have h: "2 < 1 / x" using x by (simp add: field_simps)
    have "1 / (x * 2) \<le> 1 / x - 1" using h x by (simp add: field_simps)
    then have "\<lceil>1 / (x * 2)\<rceil> \<le> \<lceil>1 / x - 1\<rceil>" by (rule ceiling_mono)
    then have A: "\<lceil>1 / (x * 2)\<rceil> < \<lceil>1 / x\<rceil>" by simp
    have B: "0 < \<lceil>1 / x\<rceil>" using x by simp
    from A B have "nat \<lceil>1 / (x * 2)\<rceil> < nat \<lceil>1 / x\<rceil>" by linarith
    then show ?thesis using False x by simp
  qed
qed

declare log2Floor.simps [simp del]

text \<open>Rounding to the nearest integer, a tie going to the even one.\<close>

definition roundEven :: "rat \<Rightarrow> int" where
  "roundEven x =
     (let f = \<lfloor>x\<rfloor>; d = x - of_int f
      in if d < 1 / 2 then f
         else if 1 / 2 < d then f + 1
         else if even f then f else f + 1)"

text \<open>
  The binary64 value nearest to a real result, before the check for overflow: the
  significand has 53 bits, so the spacing of the values around \<open>x\<close> is
  \<open>pow2 (e - 52)\<close> for the exponent \<open>e\<close> of \<open>x\<close>, and the exponent of a subnormal value is
  held at \<open>-1022\<close>.  A tie goes to the even significand.
\<close>

definition nearest :: "rat \<Rightarrow> rat" where
  "nearest x =
     (if x = 0 then 0
      else
        let e = max (log2Floor \<bar>x\<bar>) (- 1022);
            q = pow2 (e - 52)
        in sgn x * of_int (roundEven (\<bar>x\<bar> / q)) * q)"

text \<open>
  The result of an arithmetic operation whose exact value is \<open>x\<close>: the nearest binary64
  value, or an infinity when that would reach \<open>2^1024\<close>.
\<close>

definition double :: "rat \<Rightarrow> number" where
  "double x =
     (if pow2 1024 \<le> \<bar>nearest x\<bar>
      then (if 0 < x then PosInfinity else NegInfinity)
      else Finite (nearest x))"

text \<open>
  The operator \<open>/\<close> on two finite numbers: a quotient by zero is \<open>Infinity\<close>,
  \<open>-Infinity\<close> or \<open>NaN\<close> (HOL's division would silently return 0), any other quotient is
  rounded to binary64.
\<close>

definition quotient :: "rat \<Rightarrow> rat \<Rightarrow> number" where
  "quotient a b =
     (if b \<noteq> 0 then double (a / b)
      else if a = 0 then NaN
      else if 0 < a then PosInfinity else NegInfinity)"

text \<open>The decimal digits of a non-negative integer.\<close>

definition digitChar :: "int \<Rightarrow> char" where
  "digitChar d = ''0123456789'' ! nat (d mod 10)"

function decimal :: "int \<Rightarrow> string" where
  "decimal n = (if n < 10 then [digitChar n] else decimal (n div 10) @ [digitChar n])"
  by pat_completeness auto
termination
  by (relation "measure nat") auto

declare decimal.simps [simp del]

text \<open>
  \<open>Number::toString\<close> for a finite \<open>x\<close> of at least \<open>10^21\<close>, which has \<open>n \<ge> 22\<close> digits
  before the point.  ECMAScript takes the least number \<open>k\<close> of digits and a \<open>k\<close>-digit
  integer \<open>s\<close> such that \<open>s * 10^(n - k)\<close> rounds to \<open>x\<close> (the closest such \<open>s\<close>, the even
  one on a tie) and prints the digits of \<open>s\<close> in exponent notation.  \<open>pick\<close> finds \<open>s\<close> for
  given \<open>n\<close> and \<open>k\<close>: only the two integers next to \<open>x / 10^(n - k)\<close> can qualify.
  \<open>shortest\<close> tries \<open>k = 1, 2, \<dots>\<close>; a value that rounds to \<open>x\<close> can have one digit more
  than \<open>x\<close> only when it is \<open>10^n\<close>.
\<close>

definition pick :: "rat \<Rightarrow> nat \<Rightarrow> nat \<Rightarrow> int option" where
  "pick x n k =
     (let u = 10 ^ (n - k);
          lo = \<lfloor>x / u\<rfloor>;
          hi = \<lceil>x / u\<rceil>;
          ok = (\<lambda>s. 10 ^ (k - 1) \<le> s \<and> s < 10 ^ k \<and> double (of_int s * u) = Finite x)
      in if ok lo \<and> ok hi
         then Some (if x - of_int lo * u < of_int hi * u - x then lo
                    else if of_int hi * u - x < x - of_int lo * u then hi
                    else if even lo then lo else hi)
         else if ok lo then Some lo
         else if ok hi then Some hi
         else None)"

function shortest :: "rat \<Rightarrow> nat \<Rightarrow> nat \<Rightarrow> int \<times> nat" where
  "shortest x n k =
     (case pick x n k of
        Some s \<Rightarrow> (s, n)
      | None \<Rightarrow>
          if k = 1 \<and> double (10 ^ n) = Finite x then (1, n + 1)
          else if n \<le> k then (\<lfloor>x\<rfloor>, n)
          else shortest x n (Suc k))"
  by pat_completeness auto
termination
  by (relation "measure (\<lambda>(x, n, k). n - k)") auto

declare shortest.simps [simp del]

definition toStringExp :: "rat \<Rightarrow> string" where
  "toStringExp x =
     (case shortest x (length (decimal \<lfloor>x\<rfloor>)) 1 of
        (s, n) \<Rightarrow>
          (case decimal s of
             [] \<Rightarrow> []
           | d # ds \<Rightarrow>
               (if ds = [] then [d] else d # ''.'' @ ds) @ ''e+'' @ decimal (int n - 1)))"

text \<open>
  \<open>Number.prototype.toFixed(2)\<close>.  For a finite \<open>x\<close>: the sign is split off; below \<open>10^21\<close>,
  \<open>n\<close> is the integer for which \<open>n / 100\<close> is closest to \<open>\<bar>x\<bar>\<close> (the larger one on a tie)
  and the digits of \<open>n\<close> are printed with a point before the last two; from \<open>10^21\<close> on the
  number is printed as \<open>Number::toString\<close> does.
\<close>

definition hundredths :: "rat \<Rightarrow> int" where
  "hundredths x = \<lfloor>\<bar>x\<bar> * 100 + 1 / 2\<rfloor>"

definition fixedDigits :: "rat \<Rightarrow> string" where
  "fixedDigits x =
     (let n = hundredths x
      in (if x < 0 then ''-'' else '''') @ decimal (n div 100) @ ''.'' @
         [digitChar (n div 10), digitChar n])"

definition toFixed2 :: "number \<Rightarrow> string" where
  "toFixed2 v =
     (case v of
        NaN \<Rightarrow> ''NaN''
      | PosInfinity \<Rightarrow> ''Infinity''
      | NegInfinity \<Rightarrow> ''-Infinity''
      | Finite x \<Rightarrow>
          if 10 ^ 21 \<le> \<bar>x\<bar> then (if x < 0 then ''-'' else '''') @ toStringExp \<bar>x\<bar>
          else fixedDigits x)"

section \<open>The benchmark runner\<close>

subsection \<open>formatBytes and formatDiff\<close>

definition sizes :: "string list" where
  "sizes = [''B'', ''KB'', ''MB'', ''GB'']"

text \<open>
  \<open>Math.floor(Math.log(n) / Math.log(1024))\<close> for an integer \<open>n \<ge> 1\<close>, as the floor of the
  quotient of the two logarithms on the reals.  \<open>Math.log\<close> is implementation-approximated
  and the division rounds, so the index the code computes is this one unless \<open>n\<close> is so
  close below a power of 1024 that the rounded quotient reaches the next integer
  (\<open>2^50 - 1\<close> is such a count: the code's index is 5, the floor on the reals is 4).
  Byte counts that are a power of 1024, or away from one by more than a few units in the
  sixteenth significant digit, are not affected.
\<close>

function logFloor :: "int \<Rightarrow> nat" where
  "logFloor n = (if n < 1024 then 0 else Suc (logFloor (n div 1024)))"
  by pat_completeness auto
termination
  by (relation "measure nat") auto

declare logFloor.simps [simp del]

text \<open>
  \<open>sizes[i]\<close> past the end of the array is \<open>undefined\<close>, which the template literal
  prints as the word \<open>undefined\<close>.
\<close>

definition unitName :: "nat \<Rightarrow> string" where
  "unitName i = (if i < length sizes then sizes ! i else ''undefined'')"

definition formatBytes :: "int \<Rightarrow> string" where
  "formatBytes bytes =
     (if bytes = 0 then ''0 B''
      else
        let k = 1024;
            i = logFloor \<bar>bytes\<bar>
        in toFixed2 (quotient (of_int bytes) (k ^ i)) @ '' '' @ unitName i)"

definition formatDiff :: "int \<Rightarrow> string" where
  "formatDiff diff =
     (let sign = (if 0 \<le> diff then ''+'' else '''')
      in sign @ formatBytes diff)"

subsection \<open>Results, console and host\<close>

text \<open>\<open>process.memoryUsage()\<close>, the three fields the runner reads.\<close>

record MemoryUsage =
  rss :: int
  heapTotal :: int
  heapUsed :: int

record FileStats =
  arquivo :: string
  totalLinhas :: int
  linhasCodigo :: int
  linhasVazias :: int
  caracteres :: int
  tamanhoArquivo :: int

record BenchmarkResult =
  name :: string
  executionTime :: rat
  memory :: MemoryUsage
  memoryDiff :: MemoryUsage
  fileStats :: "FileStats option"

text \<open>
  One constructor per \<open>console\<close> call of the runner, holding the values the template
  interpolates (the fixed Portuguese text around them is left out).  \<open>Cabecalho\<close> shows the
  name in upper case, \<open>TempoFim\<close> is the line of \<open>console.timeEnd\<close> (a label and the time
  the console itself measured).  \<open>ErroExecutar\<close> and \<open>CertifiqueSe\<close> go to \<open>console.error\<close>,
  \<open>AvisoAnalise\<close> to \<open>console.warn\<close>, the rest to \<open>console.log\<close>.  The second argument
  of \<open>ErroExecutar\<close> is the value of \<open>error.message\<close>: a text, or \<open>undefined\<close> (\<open>None\<close>).
\<close>

datatype line =
    Cabecalho string
  | TempoFim string
  | MemoriaRSS string "string option"
  | HeapTotal string "string option"
  | HeapUsado string "string option"
  | Arquivo string
  | TotalLinhas int
  | LinhasCodigo int
  | LinhasVazias int
  | Caracteres int
  | Tamanho string
  | ErroExecutar string "string option"
  | CertifiqueSe
  | AvisoAnalise string string
  | NenhumBenchmark
  | Regua
  | ResumoComparativo
  | NomeResultado string
  | TempoResultado string string
  | MemoriaResultado string string
  | Complexidade int
  | MaisRapido string
  | MaisEficiente string

text \<open>
  What the runner asks of Node.  \<open>access p\<close> is \<open>fs.access(p)\<close>: \<open>None\<close> when the promise
  resolves, the error message when it rejects.  \<open>readFileSync p\<close> is the text of the file
  or the message of the error thrown.  \<open>resolve p\<close> is
  \<open>require.resolve(path.resolve(p))\<close>: the filename of the module or the message of the
  error thrown.  \<open>cache\<close> holds the keys of \<open>require.cache\<close>.
\<close>

record host =
  access :: "string \<Rightarrow> string option"
  readFileSync :: "string \<Rightarrow> string + jsstring"
  resolve :: "string \<Rightarrow> string + string"
  cache :: "string set"

text \<open>
  A \<open>throw\<close> statement accepts any value.  What the runner does with a caught value is
  read its \<open>message\<close> property, so three kinds are told apart: an object with a message
  (every \<open>Error\<close>), \<open>null\<close> or \<open>undefined\<close>, and any other value, whose \<open>message\<close>
  is \<open>undefined\<close>.  Reading a property of \<open>null\<close> or \<open>undefined\<close> throws a \<open>TypeError\<close>.
\<close>

datatype thrown = Error string | Nullish | Other

definition message :: "thrown \<Rightarrow> thrown + string option" where
  "message e =
     (case e of
        Error msg \<Rightarrow> Inr (Some msg)
      | Other \<Rightarrow> Inr None
      | Nullish \<Rightarrow> Inl (Error ''TypeError: Cannot read properties of null or undefined''))"

text \<open>
  The units under test: running the top-level code of the module with the given filename
  changes the host and either completes (\<open>None\<close>) or throws a value.
\<close>

type_synonym program = "string \<Rightarrow> host \<Rightarrow> thrown option \<times> host"

text \<open>
  The runner's state: \<open>this.results\<close>, the lines written to the console, the host, and
  the filenames of the modules whose top-level code has been run, in order.
\<close>

record state =
  results :: "BenchmarkResult list"
  console :: "line list"
  host :: host
  evaluated :: "string list"

definition print :: "line list \<Rightarrow> state \<Rightarrow> state" where
  "print ls s = s\<lparr>console := console s @ ls\<rparr>"

text \<open>
  Node's \<open>require\<close>: a module whose filename is in the cache is returned as it is, without
  running it again; otherwise it is entered in the cache and its top-level code runs, and
  if that throws the entry is removed and the error passed on.
\<close>

definition require :: "program \<Rightarrow> string \<Rightarrow> state \<Rightarrow> thrown option \<times> state" where
  "require prog p s =
     (case resolve (host s) p of
        Inl msg \<Rightarrow> (Some (Error msg), s)
      | Inr f \<Rightarrow>
          if f \<in> cache (host s) then (None, s)
          else
            (case prog f ((host s)\<lparr>cache := insert f (cache (host s))\<rparr>) of
               (Some e, h) \<Rightarrow>
                 (Some e, s\<lparr>host := h\<lparr>cache := cache h - {f}\<rparr>,
                             evaluated := evaluated s @ [f]\<rparr>)
             | (None, h) \<Rightarrow> (None, s\<lparr>host := h, evaluated := evaluated s @ [f]\<rparr>)))"

text \<open>
  The clock and memory readings of one run.  \<open>process.hrtime.bigint()\<close> is an unsigned
  64-bit count of nanoseconds, handed over as a \<open>BigInt\<close>.
\<close>

record readings =
  startTime :: "64 word"
  startMemory :: MemoryUsage
  endTime :: "64 word"
  endMemory :: MemoryUsage

subsection \<open>showMemoryUsage, processFileContent, analyzeFile\<close>

definition showMemoryUsage :: "MemoryUsage \<Rightarrow> MemoryUsage option \<Rightarrow> state \<Rightarrow> state" where
  "showMemoryUsage memoria diff s =
     print
       [MemoriaRSS (formatBytes (rss memoria)) (map_option (\<lambda>d. formatDiff (rss d)) diff),
        HeapTotal (formatBytes (heapTotal memoria))
          (map_option (\<lambda>d. formatDiff (heapTotal d)) diff),
        HeapUsado (formatBytes (heapUsed memoria))
          (map_option (\<lambda>d. formatDiff (heapUsed d)) diff)] s"

definition processFileContent :: "jsstring \<Rightarrow> string \<Rightarrow> state \<Rightarrow> FileStats \<times> state" where
  "processFileContent conteudo arq s =
     (let linhas = split conteudo;
          vazias = int (length (filter (\<lambda>linha. trim linha = []) linhas));
          codigo = int (length linhas) - vazias;
          stats = \<lparr>arquivo = basename arq,
                   totalLinhas = int (length linhas),
                   linhasCodigo = codigo,
                   linhasVazias = vazias,
                   caracteres = int (length conteudo),
                   tamanhoArquivo = int (byteLength conteudo)\<rparr>
      in (stats,
          print [Arquivo (arquivo stats), TotalLinhas (totalLinhas stats),
                 LinhasCodigo (linhasCodigo stats), LinhasVazias (linhasVazias stats),
                 Caracteres (caracteres stats),
                 Tamanho (formatBytes (tamanhoArquivo stats))] s))"

definition analyzeFile :: "string \<Rightarrow> state \<Rightarrow> FileStats option \<times> state" where
  "analyzeFile arq s =
     (case readFileSync (host s) arq of
        Inr conteudo \<Rightarrow>
          (case processFileContent conteudo arq s of (stats, s') \<Rightarrow> (Some stats, s'))
      | Inl msg \<Rightarrow> (None, print [AvisoAnalise arq msg] s))"

subsection \<open>runBenchmark\<close>

text \<open>
  \<open>delete require.cache[require.resolve(path.resolve(filePath))]\<close>, for the filename
  \<open>f\<close> the path resolves to.
\<close>

definition uncached :: "string \<Rightarrow> state \<Rightarrow> state" where
  "uncached f s = s\<lparr>host := (host s)\<lparr>cache := cache (host s) - {f}\<rparr>\<rparr>"

text \<open>
  \<open>Number(endTime - startTime) / 1000000\<close>: the difference of the two \<open>BigInt\<close>s is exact,
  \<open>Number\<close> rounds it to binary64, and so does the division.  The difference is below
  \<open>2^64\<close> in absolute value and the quotient is zero or at least \<open>10^-6\<close>, so neither step
  overflows or underflows.
\<close>

definition elapsed :: "readings \<Rightarrow> rat" where
  "elapsed r = nearest (nearest (of_int (uint (endTime r) - uint (startTime r))) / 1000000)"

text \<open>The object \<open>memoryDiff\<close>: end minus start, field by field.\<close>

definition memoryDelta :: "readings \<Rightarrow> MemoryUsage" where
  "memoryDelta r =
     \<lparr>rss = rss (endMemory r) - rss (startMemory r),
      heapTotal = heapTotal (endMemory r) - heapTotal (startMemory r),
      heapUsed = heapUsed (endMemory r) - heapUsed (startMemory r)\<rparr>"

text \<open>
  The body of the \<open>try\<close> block.  The first component is the value thrown, if any; the
  state is the one reached when it was thrown.  \<open>fs.access\<close> and \<open>require.resolve\<close> fail
  with \<open>Error\<close> objects.
\<close>

definition runBody ::
  "program \<Rightarrow> readings \<Rightarrow> string \<Rightarrow> string \<Rightarrow> state \<Rightarrow> thrown option \<times> state" where
  "runBody prog r nm filePath s =
     (case access (host s) filePath of
        Some msg \<Rightarrow> (Some (Error msg), s)
      | None \<Rightarrow>
          (case resolve (host s) filePath of
             Inl msg \<Rightarrow> (Some (Error msg), s)
           | Inr f \<Rightarrow>
               (case require prog filePath (uncached f s) of
                  (Some e, s') \<Rightarrow> (Some e, s')
                | (None, s') \<Rightarrow>
                    let s1 = print [TempoFim nm] s';
                        time = elapsed r;
                        diff = memoryDelta r;
                        s2 = showMemoryUsage (endMemory r) (Some diff) s1
                    in (case analyzeFile filePath s2 of
                          (stats, s3) \<Rightarrow>
                            (None,
                             s3\<lparr>results := results s3 @
                                  [\<lparr>name = nm, executionTime = time,
                                    memory = endMemory r, memoryDiff = diff,
                                    fileStats = stats\<rparr>]\<rparr>)))))"

text \<open>
  The whole method: the header line, the \<open>try\<close> block, and the \<open>catch\<close> handler.  The
  handler evaluates \<open>error.message\<close> before it prints anything.  The first component of the
  result is the value with which the promise returned by the method is rejected, if it
  is: nothing catches what the handler itself throws.
\<close>

definition runBenchmark ::
  "program \<Rightarrow> readings \<Rightarrow> string \<Rightarrow> string \<Rightarrow> state \<Rightarrow> thrown option \<times> state" where
  "runBenchmark prog r nm filePath s =
     (case runBody prog r nm filePath (print [Cabecalho nm] s) of
        (None, s') \<Rightarrow> (None, s')
      | (Some e, s') \<Rightarrow>
          (case message e of
             Inl t \<Rightarrow> (Some t, s')
           | Inr m \<Rightarrow> (None, print [ErroExecutar filePath m, CertifiqueSe] s')))"

subsection \<open>showSummary\<close>

text \<open>
  \<open>Array.prototype.reduce\<close> without an initial value: the first element is the
  accumulator, the rest are folded in from left to right; on an empty array it throws a
  \<open>TypeError\<close>.
\<close>

definition reduce :: "('a \<Rightarrow> 'a \<Rightarrow> 'a) \<Rightarrow> 'a list \<Rightarrow> string + 'a" where
  "reduce f xs =
     (case xs of
        [] \<Rightarrow> Inl ''TypeError: Reduce of empty array with no initial value''
      | x # ys \<Rightarrow> Inr (foldl f x ys))"

definition fastest :: "BenchmarkResult list \<Rightarrow> string + BenchmarkResult" where
  "fastest rs =
     reduce (\<lambda>prev curr. if executionTime prev < executionTime curr then prev else curr) rs"

definition mostMemoryEfficient :: "BenchmarkResult list \<Rightarrow> string + BenchmarkResult" where
  "mostMemoryEfficient rs =
     reduce (\<lambda>prev curr.
       if heapUsed (memory prev) < heapUsed (memory curr) then prev else curr) rs"

definition speedRatio :: "BenchmarkResult \<Rightarrow> BenchmarkResult \<Rightarrow> string" where
  "speedRatio fast result = toFixed2 (quotient (executionTime result) (executionTime fast))"

definition memoryRatio :: "BenchmarkResult \<Rightarrow> BenchmarkResult \<Rightarrow> string" where
  "memoryRatio eff result =
     toFixed2 (quotient (of_int (heapUsed (memory result))) (of_int (heapUsed (memory eff))))"

text \<open>The lines of one pass of the \<open>forEach\<close> loop.\<close>

definition resultLines :: "BenchmarkResult \<Rightarrow> BenchmarkResult \<Rightarrow> BenchmarkResult \<Rightarrow> line list" where
  "resultLines fast eff result =
     [NomeResultado (name result),
      TempoResultado (toFixed2 (Finite (executionTime result))) (speedRatio fast result),
      MemoriaResultado (formatBytes (heapUsed (memory result))) (memoryRatio eff result)] @
     (case fileStats result of
        Some st \<Rightarrow> [Complexidade (linhasCodigo st)]
      | None \<Rightarrow> [])"

text \<open>\<open>Inl\<close> is an error thrown out of \<open>showSummary\<close>, \<open>Inr\<close> the state it returns in.\<close>

definition showSummary :: "state \<Rightarrow> string + state" where
  "showSummary s =
     (if length (results s) = 0 then Inr (print [NenhumBenchmark] s)
      else
        let s1 = print [Regua, ResumoComparativo, Regua] s
        in (case fastest (results s) of
              Inl e \<Rightarrow> Inl e
            | Inr fast \<Rightarrow>
                (case mostMemoryEfficient (results s) of
                   Inl e \<Rightarrow> Inl e
                 | Inr eff \<Rightarrow>
                     Inr (print [MaisRapido (name fast), MaisEficiente (name eff)]
                            (print (concat (map (resultLines fast eff) (results s))) s1)))))"

subsection \<open>Sample inputs\<close>

text \<open>The constructor: \<open>this.results = []\<close>, nothing printed, nothing run.\<close>

definition newRunner :: "host \<Rightarrow> state" where
  "newRunner h = \<lparr>results = [], console = [], host = h, evaluated = []\<rparr>"

text \<open>
  A working directory with five scripts: \<open>estruturado.js\<close> holds the text
  \<open>x\<close>, newline, space, newline; \<open>poo.js\<close> holds \<open>y\<close>; \<open>apaga.js\<close> holds \<open>z\<close>;
  \<open>nulo.js\<close> holds \<open>w\<close>; \<open>conta.js\<close> holds \<open>c\<close>.  There is no file \<open>contador.txt\<close>.
  Nothing has been loaded yet.
\<close>

definition sampleHost :: host where
  "sampleHost =
     \<lparr>access = (\<lambda>p. if p = ''./estruturado.js'' \<or> p = ''./poo.js'' \<or> p = ''./apaga.js'' \<or>
                        p = ''./nulo.js'' \<or> p = ''./conta.js''
                     then None else Some ''ENOENT''),
      readFileSync = (\<lambda>p. if p = ''./estruturado.js'' then Inr [0x78, 0x0A, 0x20, 0x0A]
                           else if p = ''./poo.js'' then Inr [0x79]
                           else if p = ''./apaga.js'' then Inr [0x7A]
                           else if p = ''./nulo.js'' then Inr [0x77]
                           else if p = ''./conta.js'' then Inr [0x63]
                           else Inl ''ENOENT''),
      resolve = (\<lambda>p. if p = ''./estruturado.js'' then Inr ''/repo/estruturado.js''
                      else if p = ''./poo.js'' then Inr ''/repo/poo.js''
                      else if p = ''./apaga.js'' then Inr ''/repo/apaga.js''
                      else if p = ''./nulo.js'' then Inr ''/repo/nulo.js''
                      else if p = ''./conta.js'' then Inr ''/repo/conta.js''
                      else Inl ''Cannot find module''),
      cache = {}\<rparr>"

text \<open>
  \<open>estruturado.js\<close> runs to completion; \<open>poo.js\<close> throws an \<open>Error\<close> (its data file is
  missing); \<open>apaga.js\<close> completes after deleting its own source file; \<open>nulo.js\<close> is the
  one statement \<open>throw null\<close>; \<open>conta.js\<close> appends a plus sign to \<open>contador.txt\<close>, creating
  the file when it is not there.
\<close>

definition sampleProgram :: program where
  "sampleProgram f h =
     (if f = ''/repo/poo.js'' then (Some (Error ''ENOENT: dados.csv''), h)
      else if f = ''/repo/nulo.js'' then (Some Nullish, h)
      else if f = ''/repo/conta.js''
      then (None, h\<lparr>readFileSync :=
                        (\<lambda>p. if p = ''./contador.txt''
                             then Inr ((case readFileSync h p of Inr t \<Rightarrow> t | Inl m \<Rightarrow> []) @ [0x2B])
                             else readFileSync h p)\<rparr>)
      else if f = ''/repo/apaga.js''
      then (None, h\<lparr>readFileSync :=
                        (\<lambda>p. if p = ''./apaga.js'' then Inl ''ENOENT'' else readFileSync h p)\<rparr>)
      else (None, h))"

definition sampleReadings :: readings where
  "sampleReadings =
     \<lparr>startTime = 5000000,
      startMemory = \<lparr>rss = 40000000, heapTotal = 6000000, heapUsed = 4000000\<rparr>,
      endTime = 7500000,
      endMemory = \<lparr>rss = 41000000, heapTotal = 6000000, heapUsed = 3900000\<rparr>\<rparr>"

text \<open>
  The two results of the summary example: A takes 100 ms and has 1000 bytes of heap in
  use, B takes 50 ms and has 2000.
\<close>

definition resultA :: BenchmarkResult where
  "resultA =
     \<lparr>name = ''A'', executionTime = 100,
      memory = \<lparr>rss = 5000, heapTotal = 3000, heapUsed = 1000\<rparr>,
      memoryDiff = \<lparr>rss = 0, heapTotal = 0, heapUsed = 0\<rparr>,
      fileStats = None\<rparr>"


text \<open>Two results that tie in both dimensions.\<close>

definition tieFirst :: BenchmarkResult where
  "tieFirst = resultA\<lparr>name := ''first''\<rparr>"

definition tieSecond :: BenchmarkResult where
  "tieSecond = resultA\<lparr>name := ''second''\<rparr>"

definition tieState :: state where
  "tieState = (newRunner sampleHost)\<lparr>results := [tieFirst, tieSecond]\<rparr>"




section \<open>File statistics\<close>

lemma length_splitFrom: "length (splitFrom cur s) = Suc (length (filter (\<lambda>c. c = LF) s))"
  by (induction s arbitrary: cur) simp_all

lemma length_split: "length (split s) = Suc (length (filter (\<lambda>c. c = LF) s))"
  by (simp add: split_def length_splitFrom)

lemma all_dropWhile: "(\<forall>x\<in>set (dropWhile P l). P x) \<longleftrightarrow> (\<forall>x\<in>set l. P x)"
  by (induction l) auto

text \<open>A line trims to the empty string exactly when it holds nothing but white space.\<close>

lemma trim_empty_iff: "trim l = [] \<longleftrightarrow> (\<forall>c\<in>set l. isTrimmed c)"
  by (simp add: trim_def all_dropWhile)

lemma stats_fields:
  "totalLinhas (fst (processFileContent conteudo arq s)) = int (length (split conteudo))"
  "linhasVazias (fst (processFileContent conteudo arq s)) =
     int (length (filter (\<lambda>l. trim l = []) (split conteudo)))"
  "linhasCodigo (fst (processFileContent conteudo arq s)) =
     int (length (split conteudo)) - int (length (filter (\<lambda>l. trim l = []) (split conteudo)))"
  "caracteres (fst (processFileContent conteudo arq s)) = int (length conteudo)"
  "tamanhoArquivo (fst (processFileContent conteudo arq s)) = int (byteLength conteudo)"
  by (simp_all add: processFileContent_def Let_def)

lemma unitBytes_pos: "1 \<le> unitBytes c"
  by (simp add: unitBytes_def)

lemma byteLength_ge: "length s \<le> byteLength s"
proof (induction s rule: byteLength.induct)
  case 1
  show ?case by simp
next
  case (2 c)
  show ?case using unitBytes_pos [of c] by simp
next
  case (3 c d cs)
  show ?case
  proof (cases "isHighSurrogate c \<and> isLowSurrogate d")
    case True
    then have "byteLength (c # d # cs) = 4 + byteLength cs" by simp
    moreover have "length cs \<le> byteLength cs" using 3(1) True by blast
    ultimately show ?thesis by simp
  next
    case False
    then have "byteLength (c # d # cs) = unitBytes c + byteLength (d # cs)" by auto
    moreover have "length (d # cs) \<le> byteLength (d # cs)" using 3(2) False by blast
    ultimately show ?thesis using unitBytes_pos [of c] by simp
  qed
qed

lemma ascii_not_high: "c < 0x80 \<Longrightarrow> \<not> isHighSurrogate c"
  by (simp add: isHighSurrogate_def word_less_nat_alt word_le_nat_alt)

lemma byteLength_ascii: "\<forall>c\<in>set s. c < 0x80 \<Longrightarrow> byteLength s = length s"
proof (induction s rule: byteLength.induct)
  case 1
  show ?case by simp
next
  case (2 c)
  then show ?case by (simp add: unitBytes_def)
next
  case (3 c d cs)
  then have "\<not> isHighSurrogate c" by (simp add: ascii_not_high)
  with 3 show ?case by (simp add: unitBytes_def)
qed

text \<open>
  C6: the total line count is the sum of the code lines and the blank lines, none of the
  three counts is negative, and the blank lines are exactly the lines that are empty after
  trimming, that is, the lines that hold nothing but white space (the code lines are the
  others).
\<close>

theorem line_counts_add_up:
  "totalLinhas (fst (processFileContent conteudo arq s)) =
     linhasCodigo (fst (processFileContent conteudo arq s)) +
     linhasVazias (fst (processFileContent conteudo arq s)) \<and>
   0 \<le> totalLinhas (fst (processFileContent conteudo arq s)) \<and>
   0 \<le> linhasCodigo (fst (processFileContent conteudo arq s)) \<and>
   0 \<le> linhasVazias (fst (processFileContent conteudo arq s)) \<and>
   linhasVazias (fst (processFileContent conteudo arq s)) =
     int (length (filter (\<lambda>l. trim l = []) (split conteudo))) \<and>
   linhasVazias (fst (processFileContent conteudo arq s)) =
     int (length (filter (\<lambda>l. \<forall>c\<in>set l. isTrimmed c) (split conteudo))) \<and>
   linhasCodigo (fst (processFileContent conteudo arq s)) =
     int (length (filter (\<lambda>l. trim l \<noteq> []) (split conteudo)))"
proof -
  let ?ls = "split conteudo"
  have "length (filter (\<lambda>l. trim l = []) ?ls) + length (filter (\<lambda>l. trim l \<noteq> []) ?ls) =
        length ?ls"
    by (rule sum_length_filter_compl)
  moreover have "filter (\<lambda>l. trim l = []) ?ls = filter (\<lambda>l. \<forall>c\<in>set l. isTrimmed c) ?ls"
    by (simp only: trim_empty_iff)
  ultimately show ?thesis by (simp add: stats_fields)
qed

theorem line_counts_add_up_witness:
  "fst (processFileContent [0x78, 0x0A, 0x20, 0x0A] ''./estruturado.js'' (newRunner sampleHost)) =
     \<lparr>arquivo = ''estruturado.js'', totalLinhas = 3, linhasCodigo = 1, linhasVazias = 2,
      caracteres = 4, tamanhoArquivo = 4\<rparr>"
proof -
  have "fst (processFileContent [0x78, 0x0A, 0x20, 0x0A] ''./estruturado.js''
          (newRunner sampleHost)) =
        \<lparr>arquivo = ''estruturado.js'', totalLinhas = 3, linhasCodigo = 1, linhasVazias = 2,
         caracteres = 4, tamanhoArquivo = 4\<rparr>"
    by (simp add: processFileContent_def split_def trim_def isTrimmed_def LF_def basename_def
        unitBytes_def isHighSurrogate_def isLowSurrogate_def)
  with line_counts_add_up [of "[0x78, 0x0A, 0x20, 0x0A]" "''./estruturado.js''"
      "newRunner sampleHost"]
  show ?thesis by simp
qed

text \<open>
  C7: the byte size is at least the character count, and the two are equal when every
  character of the text is ASCII.
\<close>

theorem byteSize_ge_characterCount:
  "caracteres (fst (processFileContent conteudo arq s)) \<le>
     tamanhoArquivo (fst (processFileContent conteudo arq s)) \<and>
   ((\<forall>c\<in>set conteudo. c < 0x80) \<longrightarrow>
     tamanhoArquivo (fst (processFileContent conteudo arq s)) =
     caracteres (fst (processFileContent conteudo arq s)))"
  by (simp add: stats_fields byteLength_ge byteLength_ascii)

theorem byteSize_ge_characterCount_witness:
  "tamanhoArquivo (fst (processFileContent [0x78, 0x0A, 0x20, 0x0A] ''./estruturado.js''
     (newRunner sampleHost))) = 4 \<and>
   caracteres (fst (processFileContent [0x78, 0x0A, 0x20, 0x0A] ''./estruturado.js''
     (newRunner sampleHost))) = 4 \<and>
   tamanhoArquivo (fst (processFileContent [0xE9, 0x20AC, 0xD83D, 0xDE00]
     ''./acentos.js'' (newRunner sampleHost))) = 9 \<and>
   caracteres (fst (processFileContent [0xE9, 0x20AC, 0xD83D, 0xDE00]
     ''./acentos.js'' (newRunner sampleHost))) = 4"
proof -
  have b: "tamanhoArquivo (fst (processFileContent [0xE9, 0x20AC, 0xD83D, 0xDE00]
     ''./acentos.js'' (newRunner sampleHost))) = 9"
    "caracteres (fst (processFileContent [0xE9, 0x20AC, 0xD83D, 0xDE00]
     ''./acentos.js'' (newRunner sampleHost))) = 4"
    by (simp_all add: stats_fields unitBytes_def isHighSurrogate_def isLowSurrogate_def)
  have a: "\<forall>c\<in>set [0x78, 0x0A, 0x20, 0x0A :: code_unit]. c < 0x80" by simp
  have "caracteres (fst (processFileContent [0x78, 0x0A, 0x20, 0x0A] ''./estruturado.js''
     (newRunner sampleHost))) = 4"
    by (simp add: stats_fields)
  with a b byteSize_ge_characterCount [of "[0x78, 0x0A, 0x20, 0x0A]" "''./estruturado.js''"
      "newRunner sampleHost"]
  show ?thesis by simp
qed

text \<open>
  C10: splitting on the newline character always yields at least one line (one more than
  the text has newline characters), so the total line count is at least 1; the empty text
  has 1 line in total, 1 blank line and 0 code lines.
\<close>

theorem totalLinhas_at_least_one:
  "1 \<le> length (split conteudo) \<and>
   1 \<le> totalLinhas (fst (processFileContent conteudo arq s)) \<and>
   totalLinhas (fst (processFileContent conteudo arq s)) =
     1 + int (length (filter (\<lambda>c. c = LF) conteudo)) \<and>
   totalLinhas (fst (processFileContent [] arq s)) = 1 \<and>
   linhasVazias (fst (processFileContent [] arq s)) = 1 \<and>
   linhasCodigo (fst (processFileContent [] arq s)) = 0"
  by (simp add: stats_fields length_split) (simp add: split_def trim_def)

theorem totalLinhas_at_least_one_witness:
  "totalLinhas (fst (processFileContent [0x78, 0x0A, 0x20, 0x0A] ''./estruturado.js''
     (newRunner sampleHost))) = 3 \<and>
   totalLinhas (fst (processFileContent [] ''./vazio.js'' (newRunner sampleHost))) = 1"
  using totalLinhas_at_least_one [of "[0x78, 0x0A, 0x20, 0x0A]" "''./estruturado.js''"
      "newRunner sampleHost"]
    totalLinhas_at_least_one [of "[]" "''./vazio.js''" "newRunner sampleHost"]
  by (simp add: LF_def)

section \<open>Formatting byte counts\<close>

lemma logFloor_bounds:
  "1 \<le> n \<Longrightarrow> 1024 ^ logFloor n \<le> n \<and> n < 1024 ^ Suc (logFloor n)"
proof (induction n rule: logFloor.induct)
  case (1 n)
  show ?case
  proof (cases "n < 1024")
    case True
    with 1(2) show ?thesis by (simp add: logFloor.simps)
  next
    case False
    then have "1 \<le> n div 1024" by simp
    with 1(1) False
    have ih: "1024 ^ logFloor (n div 1024) \<le> n div 1024"
      "n div 1024 < 1024 ^ Suc (logFloor (n div 1024))"
      by simp_all
    have eq: "logFloor n = Suc (logFloor (n div 1024))"
      using False by (subst logFloor.simps) simp
    have "1024 * 1024 ^ logFloor (n div 1024) \<le> 1024 * (n div 1024)"
      using ih(1) by simp
    also have "\<dots> \<le> n" by simp
    finally have lower: "1024 ^ logFloor n \<le> n" by (simp add: eq)
    have "n div 1024 + 1 \<le> 1024 ^ Suc (logFloor (n div 1024))"
      using ih(2) by simp
    then have "1024 * (n div 1024 + 1) \<le> 1024 * 1024 ^ Suc (logFloor (n div 1024))"
      by simp
    moreover have "n < 1024 * (n div 1024 + 1)"
      by presburger
    ultimately have upper: "n < 1024 ^ Suc (logFloor n)" by (simp add: eq)
    from lower upper show ?thesis by simp
  qed
qed

text \<open>The recursion computes \<open>Math.floor(Math.log(n) / Math.log(1024))\<close> on the reals.\<close>

lemma logFloor_is_floor_log:
  assumes "1 \<le> n"
  shows "int (logFloor n) = \<lfloor>ln (real_of_int n) / ln 1024\<rfloor>"
proof -
  let ?k = "logFloor n"
  note b = logFloor_bounds [OF assms]
  have "real_of_int (1024 ^ ?k) \<le> real_of_int n"
    using b by (simp only: of_int_le_iff)
  then have lo: "(1024::real) ^ ?k \<le> real_of_int n" by simp
  have "real_of_int n < real_of_int (1024 ^ Suc ?k)"
    using b by (simp only: of_int_less_iff)
  then have hi: "real_of_int n < 1024 * (1024::real) ^ ?k" by simp
  have p1: "(1024::real) powr real_of_int (int ?k) = 1024 ^ ?k"
    by (simp add: powr_realpow)
  have p2: "(1024::real) powr real_of_int (int ?k + 1) = 1024 * 1024 ^ ?k"
    by (simp add: powr_add powr_realpow)
  have "0 < real_of_int n" using assms by simp
  then have "\<lfloor>log 1024 (real_of_int n)\<rfloor> = int ?k \<longleftrightarrow>
      1024 powr real_of_int (int ?k) \<le> real_of_int n \<and>
      real_of_int n < 1024 powr real_of_int (int ?k + 1)"
    by (intro floor_log_eq_powr_iff) simp_all
  with lo hi p1 p2 have "\<lfloor>log 1024 (real_of_int n)\<rfloor> = int ?k" by simp
  then show ?thesis by (simp add: log_def)
qed

text \<open>
  At 2 * 1024^4 bytes the quotient of the logarithms is 4.1, a tenth away from the nearest
  integer: the rounding of \<open>Math.log\<close> and of the division does not change its floor.
\<close>

lemma log_pow2: "0 < m \<Longrightarrow> log (2 ^ m) (2 ^ n) = real n / real m"
  by (simp add: log_base_pow log_nat_power)

lemma log_two_tebibytes: "log 1024 2199023255552 = 41 / 10"
  using log_pow2 [of 10 41] by simp

text \<open>The index is inside the unit table exactly below 1024^4 bytes.\<close>

lemma logFloor_in_table:
  assumes "bytes \<noteq> 0"
  shows "logFloor \<bar>bytes\<bar> < length sizes \<longleftrightarrow> \<bar>bytes\<bar> < 1024 ^ 4"
proof -
  have n: "1 \<le> \<bar>bytes\<bar>" using assms by simp
  note b = logFloor_bounds [OF n]
  show ?thesis
  proof
    assume "logFloor \<bar>bytes\<bar> < length sizes"
    then have "Suc (logFloor \<bar>bytes\<bar>) \<le> 4" by (simp add: sizes_def)
    then have "(1024::int) ^ Suc (logFloor \<bar>bytes\<bar>) \<le> 1024 ^ 4"
      by (intro power_increasing) simp_all
    with b show "\<bar>bytes\<bar> < 1024 ^ 4" by linarith
  next
    assume "\<bar>bytes\<bar> < 1024 ^ 4"
    with b have "(1024::int) ^ logFloor \<bar>bytes\<bar> < 1024 ^ 4" by linarith
    then have "logFloor \<bar>bytes\<bar> < 4"
      by (rule power_less_imp_less_exp [rotated]) simp
    then show "logFloor \<bar>bytes\<bar> < length sizes" by (simp add: sizes_def)
  qed
qed

section \<open>Rounding to binary64\<close>

lemma pow2_pos: "0 < pow2 e"
  by (simp add: pow2_def)

lemma pow2_Suc: "pow2 (e + 1) = 2 * pow2 e"
proof (cases "0 \<le> e")
  case True
  then show ?thesis by (simp add: pow2_def nat_add_distrib)
next
  case False
  then have "nat (- e) = Suc (nat (- (e + 1)))" by simp
  with False show ?thesis by (simp add: pow2_def)
qed

lemma pow2_pred: "pow2 (e - 1) = pow2 e / 2"
  using pow2_Suc [of "e - 1"] by simp

lemma pow2_add_nat: "pow2 (e + int n) = 2 ^ n * pow2 e"
proof (induction n)
  case 0
  show ?case by simp
next
  case (Suc n)
  have "e + int (Suc n) = e + int n + 1" by simp
  then have "pow2 (e + int (Suc n)) = pow2 (e + int n + 1)" by (simp only:)
  also have "\<dots> = 2 * pow2 (e + int n)" by (rule pow2_Suc)
  finally show ?case by (simp add: Suc)
qed

lemma pow2_mono: "a \<le> b \<Longrightarrow> pow2 a \<le> pow2 b"
proof -
  assume "a \<le> b"
  then obtain n where b: "b = a + int n" using zle_iff_zadd by blast
  have "(1::rat) \<le> 2 ^ n" by (rule one_le_power) simp
  then have "pow2 a \<le> 2 ^ n * pow2 a" using pow2_pos [of a] by simp
  then show ?thesis unfolding b pow2_add_nat .
qed

text \<open>The exponent found by \<open>log2Floor\<close> is the binary exponent.\<close>

lemma log2Floor_bounds: "0 < x \<Longrightarrow> pow2 (log2Floor x) \<le> x \<and> x < pow2 (log2Floor x + 1)"
proof (induction x rule: log2Floor.induct)
  case (1 x)
  show ?case
  proof (cases "2 \<le> x")
    case True
    define e where "e = log2Floor (x / 2)"
    from True have eq: "log2Floor x = e + 1"
      unfolding e_def by (subst log2Floor.simps) simp
    from True have "0 < x / 2" by simp
    from 1(1) [OF True this] have ih: "pow2 e \<le> x / 2" "x / 2 < pow2 (e + 1)"
      unfolding e_def by simp_all
    have p: "pow2 (e + 1) = 2 * pow2 e" "pow2 (e + 1 + 1) = 2 * pow2 (e + 1)"
      by (rule pow2_Suc)+
    from ih p show ?thesis unfolding eq by linarith
  next
    case False
    show ?thesis
    proof (cases "x < 1")
      case True
      define e where "e = log2Floor (x * 2)"
      from 1(3) False True have eq: "log2Floor x = e - 1"
        unfolding e_def by (subst log2Floor.simps) simp
      from 1(3) have "0 < x * 2" by simp
      from 1(2) [OF False _ this] True 1(3)
      have ih: "pow2 e \<le> x * 2" "x * 2 < pow2 (e + 1)"
        unfolding e_def by simp_all
      have p: "pow2 (e - 1) = pow2 e / 2" "pow2 (e - 1 + 1) = 2 * pow2 (e - 1)"
        "pow2 (e + 1) = 2 * pow2 e"
        by (rule pow2_pred pow2_Suc)+
      from ih p show ?thesis unfolding eq by linarith
    next
      case ge: False
      with False have "log2Floor x = 0" by (subst log2Floor.simps) simp
      with False ge show ?thesis by (simp add: pow2_def)
    qed
  qed
qed

lemma roundEven_bounds: "of_int (roundEven x) \<le> x + 1 / 2 \<and> x - 1 / 2 \<le> of_int (roundEven x)"
proof -
  define f where "f = \<lfloor>x\<rfloor>"
  define d where "d = x - of_int f"
  have fl: "of_int f \<le> x" "x < of_int f + 1"
    unfolding f_def using floor_correct [of x] by simp_all
  have r: "roundEven x = (if d < 1 / 2 then f else if 1 / 2 < d then f + 1
      else if even f then f else f + 1)"
    by (simp add: roundEven_def Let_def f_def d_def)
  consider "d < 1 / 2" | "1 / 2 < d" | "d = 1 / 2" by linarith
  then show ?thesis
  proof cases
    case 1
    then have "roundEven x = f" by (simp add: r)
    with 1 fl show ?thesis unfolding d_def by simp
  next
    case 2
    then have "roundEven x = f + 1" by (simp add: r)
    with 2 fl show ?thesis unfolding d_def by simp
  next
    case 3
    then have "roundEven x = f \<or> roundEven x = f + 1" by (simp add: r)
    with 3 fl show ?thesis unfolding d_def by auto
  qed
qed

lemma roundEven_ge: "of_int n \<le> x \<Longrightarrow> n \<le> roundEven x"
proof -
  assume a: "of_int n \<le> x"
  from roundEven_bounds [of x] a have "rat_of_int n - 1 / 2 \<le> of_int (roundEven x)" by linarith
  then have "rat_of_int n < of_int (roundEven x) + 1" by linarith
  then have "rat_of_int n < of_int (roundEven x + 1)" by simp
  then have "n < roundEven x + 1" by (simp only: of_int_less_iff)
  then show ?thesis by simp
qed

lemma roundEven_le: "x \<le> of_int n \<Longrightarrow> roundEven x \<le> n"
proof -
  assume a: "x \<le> of_int n"
  from roundEven_bounds [of x] a have "of_int (roundEven x) \<le> rat_of_int n + 1 / 2" by linarith
  then have "of_int (roundEven x) < rat_of_int n + 1" by linarith
  then have "of_int (roundEven x) < rat_of_int (n + 1)" by simp
  then have "roundEven x < n + 1" by (simp only: of_int_less_iff)
  then show ?thesis by simp
qed

text \<open>
  What \<open>nearest\<close> is on a positive \<open>x\<close> with exponent \<open>e\<close> (held at \<open>-1022\<close>): between 0 and
  \<open>2^53\<close> steps of \<open>pow2 (e - 52)\<close>, and at least \<open>2^52\<close> steps when the exponent is not held.
\<close>

lemma nearest_pos:
  assumes "0 < x"
  defines "e \<equiv> max (log2Floor x) (- 1022)"
  shows "nearest x = of_int (roundEven (x / pow2 (e - 52))) * pow2 (e - 52)"
    and "roundEven (x / pow2 (e - 52)) \<le> 2 ^ 53"
    and "0 \<le> roundEven (x / pow2 (e - 52))"
    and "- 1022 \<le> log2Floor x \<Longrightarrow> 2 ^ 52 \<le> roundEven (x / pow2 (e - 52))"
proof -
  let ?q = "pow2 (e - 52)"
  have q: "0 < ?q" by (rule pow2_pos)
  from log2Floor_bounds [OF assms(1)]
  have b: "pow2 (log2Floor x) \<le> x" "x < pow2 (log2Floor x + 1)" by simp_all
  have "e - 52 + int 52 = e" "e - 52 + int 53 = e + 1" by simp_all
  with pow2_add_nat [of "e - 52" 52] pow2_add_nat [of "e - 52" 53]
  have pe: "pow2 e = 2 ^ 52 * ?q" and pe1: "pow2 (e + 1) = 2 ^ 53 * ?q"
    by (simp_all only:)
  show "nearest x = of_int (roundEven (x / ?q)) * ?q"
    using assms(1) by (simp add: nearest_def Let_def e_def)
  have "log2Floor x + 1 \<le> e + 1" unfolding e_def by simp
  then have "pow2 (log2Floor x + 1) \<le> pow2 (e + 1)" by (rule pow2_mono)
  with b(2) have "x < 2 ^ 53 * ?q" unfolding pe1 by simp
  then have "x / ?q \<le> rat_of_int (2 ^ 53)" using q by (simp add: pos_divide_le_eq)
  then show "roundEven (x / ?q) \<le> 2 ^ 53" by (rule roundEven_le)
  have "rat_of_int 0 \<le> x / ?q" using assms(1) q by simp
  then show "0 \<le> roundEven (x / ?q)" by (rule roundEven_ge)
  show "2 ^ 52 \<le> roundEven (x / ?q)" if "- 1022 \<le> log2Floor x"
  proof -
    from that have "e = log2Floor x" unfolding e_def by simp
    with b(1) have "2 ^ 52 * ?q \<le> x" unfolding pe [symmetric] by simp
    then have "rat_of_int (2 ^ 52) \<le> x / ?q" using q by (simp add: pos_le_divide_eq)
    then show ?thesis by (rule roundEven_ge)
  qed
qed


text \<open>Rounding does not carry a value past a power of two above it.\<close>

lemma nearest_le_pow2:
  assumes "0 < x" "x < pow2 k" "- 1022 < k"
  shows "nearest x \<le> pow2 k"
proof -
  define e where "e = max (log2Floor x) (- 1022)"
  from log2Floor_bounds [OF assms(1)] have b: "pow2 (log2Floor x) \<le> x" by simp
  have "log2Floor x < k"
  proof (rule ccontr)
    assume "\<not> log2Floor x < k"
    then have "pow2 k \<le> pow2 (log2Floor x)" by (intro pow2_mono) simp
    with b assms(2) show False by simp
  qed
  with assms(3) have "e + 1 \<le> k" unfolding e_def by linarith
  then have le: "pow2 (e + 1) \<le> pow2 k" by (rule pow2_mono)
  note n = nearest_pos(1,2) [OF assms(1)]
  have "rat_of_int (roundEven (x / pow2 (e - 52))) \<le> rat_of_int (2 ^ 53)"
    using n(2) unfolding e_def by (simp only: of_int_le_iff)
  then have "of_int (roundEven (x / pow2 (e - 52))) * pow2 (e - 52) \<le> 2 ^ 53 * pow2 (e - 52)"
    using pow2_pos [of "e - 52"] by simp
  moreover have "pow2 (e + 1) = 2 ^ 53 * pow2 (e - 52)"
  proof -
    have "e - 52 + int 53 = e + 1" by simp
    with pow2_add_nat [of "e - 52" 53] show ?thesis by (simp only:)
  qed
  ultimately have "of_int (roundEven (x / pow2 (e - 52))) * pow2 (e - 52) \<le> pow2 k"
    using le by linarith
  then show ?thesis using n(1) unfolding e_def by (simp only:)
qed

lemma nearest_nonneg: "0 \<le> x \<Longrightarrow> 0 \<le> nearest x"
proof (cases "x = 0")
  case True
  then show ?thesis by (simp add: nearest_def)
next
  case False
  assume "0 \<le> x"
  with False have pos: "0 < x" by simp
  note n = nearest_pos(1,3) [OF pos]
  have "0 \<le> rat_of_int (roundEven (x / pow2 (max (log2Floor x) (- 1022) - 52)))"
    using n(2) by simp
  moreover have "0 \<le> pow2 (max (log2Floor x) (- 1022) - 52)"
    using pow2_pos [of "max (log2Floor x) (- 1022) - 52"] by simp
  ultimately show ?thesis unfolding n(1) by (rule mult_nonneg_nonneg)
qed

lemma nearest_minus: "nearest (- x) = - nearest x"
  by (simp add: nearest_def Let_def)

lemma nearest_abs: "\<bar>nearest x\<bar> = nearest \<bar>x\<bar>"
proof (cases "0 \<le> x")
  case True
  then show ?thesis using nearest_nonneg [of x] by simp
next
  case False
  then have "0 \<le> - x" by simp
  from nearest_nonneg [OF this] False show ?thesis by (simp add: nearest_minus)
qed

section \<open>Formatting byte counts, continued\<close>

text \<open>
  The scaled value is below 1024 in absolute value and so is its rounding: the division
  does not overflow and \<open>toFixed\<close> stays in the decimal notation.
\<close>

lemma formatBytes_decimal:
  assumes "bytes \<noteq> 0"
  shows "formatBytes bytes =
     fixedDigits (nearest (of_int bytes / 1024 ^ logFloor \<bar>bytes\<bar>)) @ '' '' @
     unitName (logFloor \<bar>bytes\<bar>)"
proof -
  have n: "1 \<le> \<bar>bytes\<bar>" using assms by simp
  let ?i = "logFloor \<bar>bytes\<bar>"
  let ?x = "rat_of_int bytes / 1024 ^ ?i"
  from logFloor_bounds [OF n] have "\<bar>bytes\<bar> < 1024 * 1024 ^ ?i" by simp
  then have "(of_int \<bar>bytes\<bar> :: rat) < of_int (1024 * 1024 ^ ?i)"
    by (simp only: of_int_less_iff)
  then have "\<bar>of_int bytes :: rat\<bar> < 1024 * 1024 ^ ?i" by simp
  then have lt: "\<bar>?x\<bar> < pow2 10"
    by (simp add: abs_divide pos_divide_less_eq pow2_def)
  have pos: "0 < \<bar>?x\<bar>" using assms by simp
  from nearest_le_pow2 [OF pos lt] have le: "\<bar>nearest ?x\<bar> \<le> 1024"
    by (simp add: nearest_abs pow2_def)
  have "(1024::rat) < pow2 1024"
  proof -
    have "pow2 10 < pow2 1024"
      using pow2_add_nat [of 10 1014] pow2_pos [of 10] by simp
    then show ?thesis by (simp add: pow2_def)
  qed
  with le have d: "double ?x = Finite (nearest ?x)" by (simp add: double_def)
  from le have "\<not> 10 ^ 21 \<le> \<bar>nearest ?x\<bar>" by simp
  with assms d show ?thesis
    by (simp add: formatBytes_def quotient_def toFixed2_def Let_def)
qed

lemma floor_rat_numeral: "\<lfloor>numeral a / numeral b :: rat\<rfloor> = numeral a div numeral b"
  by (metis floor_divide_of_int_eq of_int_numeral)

lemmas number_simps = quotient_def double_def nearest_def log2Floor.simps roundEven_def
  pow2_def toFixed2_def fixedDigits_def hundredths_def floor_rat_numeral decimal.simps
  digitChar_def Let_def

lemmas render_simps = formatBytes_def formatDiff_def logFloor.simps unitName_def sizes_def
  number_simps

text \<open>
  C9: the formatter scales by powers of 1024 and prints two decimals, but the index into
  the four-entry unit table is not kept inside it.  At 2 * 1024^4 bytes the index is 4,
  and the text printed after the number is the word undefined instead of a unit.
\<close>

theorem formatBytes_past_unit_table:
  "logFloor \<bar>2199023255552\<bar> = 4 \<and> length sizes = 4 \<and>
   formatBytes 2199023255552 = ''2.00 undefined'' \<and>
   formatBytes 1099511627776 = ''1.00 undefined'' \<and>
   formatBytes 0 = ''0 B'' \<and>
   formatBytes 1536 = ''1.50 KB''"
  by (simp add: render_simps)

section \<open>The summary\<close>

text \<open>
  Folding \<open>prev < curr ? prev : curr\<close> over a list: the result is an element with the
  least key, and every element after it has a strictly greater key.
\<close>

lemma foldl_pick:
  fixes key :: "'a \<Rightarrow> 'k::linorder"
  shows "\<exists>i<length (x # ys).
           foldl (\<lambda>prev curr. if key prev < key curr then prev else curr) x ys = (x # ys) ! i \<and>
           (\<forall>j<length (x # ys). key ((x # ys) ! i) \<le> key ((x # ys) ! j)) \<and>
           (\<forall>j<length (x # ys). i < j \<longrightarrow> key ((x # ys) ! i) < key ((x # ys) ! j))"
proof (induction ys rule: rev_induct)
  case Nil
  show ?case by simp
next
  case (snoc y ys)
  let ?f = "\<lambda>prev curr. if key prev < key curr then prev else curr"
  let ?xs = "x # ys"
  from snoc obtain i where i: "i < length ?xs" "foldl ?f x ys = ?xs ! i"
    and least: "\<forall>j<length ?xs. key (?xs ! i) \<le> key (?xs ! j)"
    and later: "\<forall>j<length ?xs. i < j \<longrightarrow> key (?xs ! i) < key (?xs ! j)"
    by blast
  have nth_old: "(x # ys @ [y]) ! j = ?xs ! j" if "j < length ?xs" for j
    using that nth_append [of ?xs "[y]" j] by simp
  have nth_new: "(x # ys @ [y]) ! length ?xs = y"
    using nth_append_length [of ?xs y] by simp
  have len: "length (x # ys @ [y]) = Suc (length ?xs)" by simp
  have old_i: "(x # ys @ [y]) ! i = ?xs ! i" using i(1) by (rule nth_old)
  show ?case
  proof (cases "key (?xs ! i) < key y")
    case True
    have "foldl ?f x (ys @ [y]) = ?f (foldl ?f x ys) y" by simp
    also have "\<dots> = ?xs ! i" using True i(2) by simp
    finally have res: "foldl ?f x (ys @ [y]) = (x # ys @ [y]) ! i" by (simp only: old_i)
    have "\<forall>j<length (x # ys @ [y]). key ((x # ys @ [y]) ! i) \<le> key ((x # ys @ [y]) ! j)"
    proof (intro allI impI)
      fix j assume "j < length (x # ys @ [y])"
      then consider "j < length ?xs" | "j = length ?xs" unfolding len by linarith
      then show "key ((x # ys @ [y]) ! i) \<le> key ((x # ys @ [y]) ! j)"
      proof cases
        case 1
        from least 1 have "key (?xs ! i) \<le> key (?xs ! j)" by blast
        then show ?thesis by (simp only: old_i nth_old [OF 1])
      next
        case 2
        from True have "key (?xs ! i) \<le> key y" by simp
        then show ?thesis by (simp only: old_i 2 nth_new)
      qed
    qed
    moreover
    have "\<forall>j<length (x # ys @ [y]). i < j \<longrightarrow>
            key ((x # ys @ [y]) ! i) < key ((x # ys @ [y]) ! j)"
    proof (intro allI impI)
      fix j assume "j < length (x # ys @ [y])" and ij: "i < j"
      then consider "j < length ?xs" | "j = length ?xs" unfolding len by linarith
      then show "key ((x # ys @ [y]) ! i) < key ((x # ys @ [y]) ! j)"
      proof cases
        case 1
        from later 1 ij have "key (?xs ! i) < key (?xs ! j)" by blast
        then show ?thesis by (simp only: old_i nth_old [OF 1])
      next
        case 2
        from True show ?thesis by (simp only: old_i 2 nth_new)
      qed
    qed
    moreover have "i < length (x # ys @ [y])" using i(1) unfolding len by linarith
    ultimately show ?thesis using res by blast
  next
    case False
    have "foldl ?f x (ys @ [y]) = ?f (foldl ?f x ys) y" by simp
    also have "\<dots> = y" using False i(2) by simp
    finally have res: "foldl ?f x (ys @ [y]) = (x # ys @ [y]) ! length ?xs"
      by (simp only: nth_new)
    have "\<forall>j<length (x # ys @ [y]).
            key ((x # ys @ [y]) ! length ?xs) \<le> key ((x # ys @ [y]) ! j)"
    proof (intro allI impI)
      fix j assume "j < length (x # ys @ [y])"
      then consider "j < length ?xs" | "j = length ?xs" unfolding len by linarith
      then show "key ((x # ys @ [y]) ! length ?xs) \<le> key ((x # ys @ [y]) ! j)"
      proof cases
        case 1
        from least 1 have "key (?xs ! i) \<le> key (?xs ! j)" by blast
        with False have "key y \<le> key (?xs ! j)" by simp
        then show ?thesis by (simp only: nth_new nth_old [OF 1])
      next
        case 2
        then show ?thesis by (simp only: order_refl)
      qed
    qed
    moreover
    have "\<forall>j<length (x # ys @ [y]). length ?xs < j \<longrightarrow>
            key ((x # ys @ [y]) ! length ?xs) < key ((x # ys @ [y]) ! j)"
      unfolding len by (intro allI impI) linarith
    moreover have "length ?xs < length (x # ys @ [y])" unfolding len by simp
    ultimately show ?thesis using res by blast
  qed
qed

lemma fastest_pick:
  assumes "rs \<noteq> []"
  shows "\<exists>i<length rs. fastest rs = Inr (rs ! i) \<and>
           (\<forall>j<length rs. executionTime (rs ! i) \<le> executionTime (rs ! j)) \<and>
           (\<forall>j<length rs. i < j \<longrightarrow> executionTime (rs ! i) < executionTime (rs ! j))"
proof -
  from assms obtain x ys where rs: "rs = x # ys" by (cases rs) auto
  show ?thesis
    unfolding rs fastest_def reduce_def using foldl_pick [of x ys executionTime] by simp
qed

lemma mostMemoryEfficient_pick:
  assumes "rs \<noteq> []"
  shows "\<exists>i<length rs. mostMemoryEfficient rs = Inr (rs ! i) \<and>
           (\<forall>j<length rs. heapUsed (memory (rs ! i)) \<le> heapUsed (memory (rs ! j))) \<and>
           (\<forall>j<length rs. i < j \<longrightarrow> heapUsed (memory (rs ! i)) < heapUsed (memory (rs ! j)))"
proof -
  from assms obtain x ys where rs: "rs = x # ys" by (cases rs) auto
  show ?thesis
    unfolding rs mostMemoryEfficient_def reduce_def
    using foldl_pick [of x ys "\<lambda>r. heapUsed (memory r)"] by simp
qed

lemma showSummary_nonempty:
  assumes "results s \<noteq> []" "fastest (results s) = Inr fast"
    "mostMemoryEfficient (results s) = Inr eff"
  shows "showSummary s =
     Inr (print [MaisRapido (name fast), MaisEficiente (name eff)]
            (print (concat (map (resultLines fast eff) (results s)))
               (print [Regua, ResumoComparativo, Regua] s)))"
  using assms by (simp add: showSummary_def)

text \<open>\<open>showSummary\<close> never throws: \<open>reduce\<close> is only reached on a non-empty list.\<close>

lemma showSummary_returns: "\<exists>s'. showSummary s = Inr s'"
proof (cases "results s = []")
  case True
  then show ?thesis by (simp add: showSummary_def)
next
  case False
  from fastest_pick [OF False] obtain fast where "fastest (results s) = Inr fast" by blast
  moreover from mostMemoryEfficient_pick [OF False]
  obtain eff where "mostMemoryEfficient (results s) = Inr eff" by blast
  ultimately show ?thesis using False by (simp add: showSummary_def)
qed

text \<open>
  C5: on an empty result list the summary prints the line saying that no benchmark was
  executed and returns normally; nothing else is printed and the results stay empty.
\<close>

theorem showSummary_empty:
  assumes "results s = []"
  shows "showSummary s = Inr (print [NenhumBenchmark] s) \<and>
         console (print [NenhumBenchmark] s) = console s @ [NenhumBenchmark] \<and>
         results (print [NenhumBenchmark] s) = []"
  using assms by (simp add: showSummary_def print_def)

theorem showSummary_empty_witness:
  "results (newRunner sampleHost) = [] \<and>
   showSummary (newRunner sampleHost) = Inr (print [NenhumBenchmark] (newRunner sampleHost)) \<and>
   console (print [NenhumBenchmark] (newRunner sampleHost)) = [NenhumBenchmark]"
proof -
  have h: "results (newRunner sampleHost) = []" by (simp add: newRunner_def)
  have c: "console (newRunner sampleHost) = []" by (simp add: newRunner_def)
  from showSummary_empty [OF h] h c show ?thesis by simp
qed

text \<open>
  C1 as stated fails: when two entries tie, the fold keeps the current entry, so the
  later one is reported.  Here both entries take 100 ms and use 1000 bytes of heap, and
  the summary names the second one in both dimensions.
\<close>

theorem tie_goes_to_later_entry:
  "executionTime tieFirst = executionTime tieSecond \<and>
   heapUsed (memory tieFirst) = heapUsed (memory tieSecond) \<and>
   name tieFirst = ''first'' \<and> name tieSecond = ''second'' \<and>
   fastest [tieFirst, tieSecond] = Inr tieSecond \<and>
   mostMemoryEfficient [tieFirst, tieSecond] = Inr tieSecond \<and>
   map_sum id console (showSummary tieState) =
     Inr [Regua, ResumoComparativo, Regua,
          NomeResultado ''first'',
          TempoResultado ''100.00'' ''1.00'',
          MemoriaResultado ''1000.00 B'' ''1.00'',
          NomeResultado ''second'',
          TempoResultado ''100.00'' ''1.00'',
          MemoriaResultado ''1000.00 B'' ''1.00'',
          MaisRapido ''second'', MaisEficiente ''second'']"
  by (simp add: tieState_def tieFirst_def tieSecond_def resultA_def newRunner_def
      showSummary_def fastest_def mostMemoryEfficient_def reduce_def resultLines_def
      speedRatio_def memoryRatio_def print_def render_simps)

text \<open>
  C1 as amended: on a non-empty result list the fastest entry has the least execution time
  and the most memory-efficient entry the least heap in use; among entries with equal
  least values the last one in session order is selected (every later entry is strictly
  greater).  These two entries are the ones the summary names.
\<close>

theorem summary_selects_last_minimum:
  assumes "results s \<noteq> []"
  shows "\<exists>i k. i < length (results s) \<and> k < length (results s) \<and>
     fastest (results s) = Inr (results s ! i) \<and>
     mostMemoryEfficient (results s) = Inr (results s ! k) \<and>
     (\<forall>j<length (results s). executionTime (results s ! i) \<le> executionTime (results s ! j)) \<and>
     (\<forall>j<length (results s).
        i < j \<longrightarrow> executionTime (results s ! i) < executionTime (results s ! j)) \<and>
     (\<forall>j<length (results s).
        heapUsed (memory (results s ! k)) \<le> heapUsed (memory (results s ! j))) \<and>
     (\<forall>j<length (results s).
        k < j \<longrightarrow> heapUsed (memory (results s ! k)) < heapUsed (memory (results s ! j))) \<and>
     showSummary s =
       Inr (print [MaisRapido (name (results s ! i)), MaisEficiente (name (results s ! k))]
              (print (concat (map (resultLines (results s ! i) (results s ! k)) (results s)))
                 (print [Regua, ResumoComparativo, Regua] s)))"
proof -
  from fastest_pick [OF assms] obtain i where i: "i < length (results s)"
    "fastest (results s) = Inr (results s ! i)"
    "\<forall>j<length (results s). executionTime (results s ! i) \<le> executionTime (results s ! j)"
    "\<forall>j<length (results s).
        i < j \<longrightarrow> executionTime (results s ! i) < executionTime (results s ! j)"
    by blast
  from mostMemoryEfficient_pick [OF assms] obtain k where k: "k < length (results s)"
    "mostMemoryEfficient (results s) = Inr (results s ! k)"
    "\<forall>j<length (results s).
        heapUsed (memory (results s ! k)) \<le> heapUsed (memory (results s ! j))"
    "\<forall>j<length (results s).
        k < j \<longrightarrow> heapUsed (memory (results s ! k)) < heapUsed (memory (results s ! j))"
    by blast
  note showSummary_nonempty [OF assms i(2) k(2)]
  with i k show ?thesis by blast
qed

theorem summary_selects_last_minimum_witness:
  "\<exists>i k. i < length (results tieState) \<and> k < length (results tieState) \<and>
     fastest (results tieState) = Inr (results tieState ! i) \<and>
     mostMemoryEfficient (results tieState) = Inr (results tieState ! k)"
proof -
  have h: "results tieState \<noteq> []" by (simp add: tieState_def)
  from summary_selects_last_minimum [OF h] show ?thesis by blast
qed

section \<open>The ratios of the summary\<close>




lemma toFixed2_one: "toFixed2 (Finite 1) = ''1.00''"
  by (simp add: number_simps)













section \<open>Running a benchmark\<close>

lemma print_fields [simp]:
  "results (print ls s) = results s"
  "console (print ls s) = console s @ ls"
  "host (print ls s) = host s"
  "evaluated (print ls s) = evaluated s"
  by (simp_all add: print_def)

lemma showMemoryUsage_fields [simp]:
  "results (showMemoryUsage m d s) = results s"
  "host (showMemoryUsage m d s) = host s"
  "evaluated (showMemoryUsage m d s) = evaluated s"
  by (simp_all add: showMemoryUsage_def)

lemma analyzeFile_fields [simp]:
  "results (snd (analyzeFile arq s)) = results s"
  "host (snd (analyzeFile arq s)) = host s"
  "evaluated (snd (analyzeFile arq s)) = evaluated s"
  by (simp_all add: analyzeFile_def processFileContent_def Let_def split: sum.splits)

lemma analyzeFile_unreadable:
  "readFileSync (host s) arq = Inl msg \<Longrightarrow>
   analyzeFile arq s = (None, print [AvisoAnalise arq msg] s)"
  by (simp add: analyzeFile_def)

text \<open>A module that is in the cache is not run again.\<close>

lemma require_cached:
  "resolve (host s) p = Inr f \<Longrightarrow> f \<in> cache (host s) \<Longrightarrow> require prog p s = (None, s)"
  by (simp add: require_def)

lemma uncached_fields [simp]:
  "results (uncached f s) = results s"
  "console (uncached f s) = console s"
  "evaluated (uncached f s) = evaluated s"
  "resolve (host (uncached f s)) = resolve (host s)"
  "f \<notin> cache (host (uncached f s))"
  "(host (uncached f s))\<lparr>cache := insert f (cache (host (uncached f s)))\<rparr> =
     (host s)\<lparr>cache := insert f (cache (host s))\<rparr>"
  by (simp_all add: uncached_def)

lemma require_uncached_throws:
  assumes "resolve (host s) p = Inr f"
    "prog f ((host s)\<lparr>cache := insert f (cache (host s))\<rparr>) = (Some e, h)"
  shows "require prog p (uncached f s) =
     (Some e, (uncached f s)\<lparr>host := h\<lparr>cache := cache h - {f}\<rparr>,
                              evaluated := evaluated s @ [f]\<rparr>)"
  using assms by (simp add: require_def)

lemma require_uncached_completes:
  assumes "resolve (host s) p = Inr f"
    "prog f ((host s)\<lparr>cache := insert f (cache (host s))\<rparr>) = (None, h)"
  shows "require prog p (uncached f s) =
     (None, (uncached f s)\<lparr>host := h, evaluated := evaluated s @ [f]\<rparr>)"
  using assms by (simp add: require_def)

lemma runBody_inaccessible:
  "access (host s) p = Some msg \<Longrightarrow> runBody prog r nm p s = (Some (Error msg), s)"
  by (simp add: runBody_def)

lemma runBody_unresolved:
  "access (host s) p = None \<Longrightarrow> resolve (host s) p = Inl msg \<Longrightarrow>
   runBody prog r nm p s = (Some (Error msg), s)"
  by (simp add: runBody_def)

lemma runBody_throws:
  assumes "access (host s) p = None" "resolve (host s) p = Inr f"
    "prog f ((host s)\<lparr>cache := insert f (cache (host s))\<rparr>) = (Some e, h)"
  shows "runBody prog r nm p s =
     (Some e, (uncached f s)\<lparr>host := h\<lparr>cache := cache h - {f}\<rparr>,
                              evaluated := evaluated s @ [f]\<rparr>)"
  using assms by (simp add: runBody_def require_uncached_throws)

lemma runBody_completes:
  assumes "access (host s) p = None" "resolve (host s) p = Inr f"
    "prog f ((host s)\<lparr>cache := insert f (cache (host s))\<rparr>) = (None, h)"
    "analyzeFile p (showMemoryUsage (endMemory r) (Some (memoryDelta r))
       (print [TempoFim nm] ((uncached f s)\<lparr>host := h, evaluated := evaluated s @ [f]\<rparr>))) =
     (st, s3)"
  shows "runBody prog r nm p s =
     (None,
      s3\<lparr>results := results s @
           [\<lparr>name = nm, executionTime = elapsed r, memory = endMemory r,
             memoryDiff = memoryDelta r, fileStats = st\<rparr>]\<rparr>)"
proof -
  have "results s3 = results s"
    using analyzeFile_fields(1) [of p "showMemoryUsage (endMemory r) (Some (memoryDelta r))
       (print [TempoFim nm] ((uncached f s)\<lparr>host := h, evaluated := evaluated s @ [f]\<rparr>))"]
    by (simp add: assms(4))
  with assms show ?thesis
    by (simp add: runBody_def require_uncached_completes Let_def)
qed

text \<open>A run that reaches the end of the \<open>try\<close> block appends exactly one result.\<close>

lemma runBenchmark_completes_state:
  assumes "access (host s) p = None" "resolve (host s) p = Inr f"
    "prog f ((host s)\<lparr>cache := insert f (cache (host s))\<rparr>) = (None, h)"
  shows "\<exists>st s3. runBenchmark prog r nm p s =
           (None,
            s3\<lparr>results := results s @
                 [\<lparr>name = nm, executionTime = elapsed r, memory = endMemory r,
                   memoryDiff = memoryDelta r, fileStats = st\<rparr>]\<rparr>) \<and>
           host s3 = h \<and> evaluated s3 = evaluated s @ [f]"
proof -
  let ?s0 = "print [Cabecalho nm] s"
  let ?s2 = "showMemoryUsage (endMemory r) (Some (memoryDelta r))
       (print [TempoFim nm] ((uncached f ?s0)\<lparr>host := h,
          evaluated := evaluated ?s0 @ [f]\<rparr>))"
  obtain st s3 where a: "analyzeFile p ?s2 = (st, s3)"
    by (cases "analyzeFile p ?s2") blast
  have "host (snd (analyzeFile p ?s2)) = host ?s2"
    and "evaluated (snd (analyzeFile p ?s2)) = evaluated ?s2"
    by (rule analyzeFile_fields)+
  then have "host s3 = host ?s2" and "evaluated s3 = evaluated ?s2"
    unfolding a snd_conv .
  then have hs: "host s3 = h" and ev: "evaluated s3 = evaluated s @ [f]" by simp_all
  have a0: "access (host ?s0) p = None" "resolve (host ?s0) p = Inr f"
    "prog f ((host ?s0)\<lparr>cache := insert f (cache (host ?s0))\<rparr>) = (None, h)"
    using assms by simp_all
  have "runBody prog r nm p ?s0 =
     (None,
      s3\<lparr>results := results ?s0 @
           [\<lparr>name = nm, executionTime = elapsed r, memory = endMemory r,
             memoryDiff = memoryDelta r, fileStats = st\<rparr>]\<rparr>)"
    by (rule runBody_completes [where prog = prog and s = ?s0 and p = p and f = f and h = h
          and r = r and nm = nm and st = st and ?s3.0 = s3, OF a0 a])
  then have "runBenchmark prog r nm p s =
      (None,
       s3\<lparr>results := results s @
           [\<lparr>name = nm, executionTime = elapsed r, memory = endMemory r,
             memoryDiff = memoryDelta r, fileStats = st\<rparr>]\<rparr>)"
    by (simp add: runBenchmark_def)
  with hs ev show ?thesis by blast
qed

lemma runBenchmark_completes:
  assumes "access (host s) p = None" "resolve (host s) p = Inr f"
    "prog f ((host s)\<lparr>cache := insert f (cache (host s))\<rparr>) = (None, h)"
  shows "\<exists>st. results (snd (runBenchmark prog r nm p s)) =
           results s @
           [\<lparr>name = nm, executionTime = elapsed r, memory = endMemory r,
             memoryDiff = memoryDelta r, fileStats = st\<rparr>]"
    and "host (snd (runBenchmark prog r nm p s)) = h"
    and "evaluated (snd (runBenchmark prog r nm p s)) = evaluated s @ [f]"
    and "fst (runBenchmark prog r nm p s) = None"
proof -
  from runBenchmark_completes_state [where prog = prog and s = s and p = p and f = f
      and h = h and r = r and nm = nm, OF assms]
  obtain st s3 where *: "runBenchmark prog r nm p s =
           (None,
            s3\<lparr>results := results s @
                [\<lparr>name = nm, executionTime = elapsed r, memory = endMemory r,
                  memoryDiff = memoryDelta r, fileStats = st\<rparr>]\<rparr>)"
    "host s3 = h" "evaluated s3 = evaluated s @ [f]"
    by blast
  show "\<exists>st. results (snd (runBenchmark prog r nm p s)) =
           results s @
           [\<lparr>name = nm, executionTime = elapsed r, memory = endMemory r,
             memoryDiff = memoryDelta r, fileStats = st\<rparr>]"
    unfolding *(1) by simp
  show "host (snd (runBenchmark prog r nm p s)) = h" unfolding *(1) using *(2) by simp
  show "evaluated (snd (runBenchmark prog r nm p s)) = evaluated s @ [f]"
    unfolding *(1) using *(3) by simp
  show "fst (runBenchmark prog r nm p s) = None" unfolding *(1) by simp
qed

text \<open>
  A run whose unit throws: the handler is entered in the state reached by the throw.  The
  value thrown decides whether the handler prints the error or throws itself.
\<close>

lemma runBenchmark_throws:
  assumes "access (host s) p = None" "resolve (host s) p = Inr f"
    "prog f ((host s)\<lparr>cache := insert f (cache (host s))\<rparr>) = (Some e, h)"
  shows "runBenchmark prog r nm p s =
     (case message e of
        Inl t \<Rightarrow>
          (Some t,
           (uncached f (print [Cabecalho nm] s))\<lparr>host := h\<lparr>cache := cache h - {f}\<rparr>,
              evaluated := evaluated s @ [f]\<rparr>)
      | Inr m \<Rightarrow>
          (None,
           print [ErroExecutar p m, CertifiqueSe]
             ((uncached f (print [Cabecalho nm] s))\<lparr>host := h\<lparr>cache := cache h - {f}\<rparr>,
                evaluated := evaluated s @ [f]\<rparr>)))"
proof -
  let ?s0 = "print [Cabecalho nm] s"
  have a0: "access (host ?s0) p = None" "resolve (host ?s0) p = Inr f"
    "prog f ((host ?s0)\<lparr>cache := insert f (cache (host ?s0))\<rparr>) = (Some e, h)"
    using assms by simp_all
  note runBody_throws [where prog = prog and s = ?s0 and p = p and f = f
          and h = h and e = e and r = r and nm = nm, OF a0]
  then show ?thesis by (simp add: runBenchmark_def)
qed

text \<open>
  When the path is inaccessible (\<open>fs.access\<close> rejects, or the path does not resolve to a
  module) or the unit throws a value other than \<open>null\<close> and \<open>undefined\<close>, the run appends
  nothing, reports the error after the header line and returns normally.
\<close>

lemma caught_failure_is_reported:
  assumes "(\<exists>msg. access (host s) filePath = Some msg) \<or>
           (\<exists>msg. resolve (host s) filePath = Inl msg) \<or>
           (\<exists>f e h. resolve (host s) filePath = Inr f \<and>
              prog f ((host s)\<lparr>cache := insert f (cache (host s))\<rparr>) = (Some e, h) \<and>
              e \<noteq> Nullish)"
  shows "fst (runBenchmark prog r nm filePath s) = None \<and>
         results (snd (runBenchmark prog r nm filePath s)) = results s \<and>
         (\<exists>m. console (snd (runBenchmark prog r nm filePath s)) =
            console s @ [Cabecalho nm, ErroExecutar filePath m, CertifiqueSe])"
proof -
  let ?s0 = "print [Cabecalho nm] s"
  have "\<exists>e s'. runBody prog r nm filePath ?s0 = (Some e, s') \<and> e \<noteq> Nullish \<and>
          results s' = results s \<and> console s' = console s @ [Cabecalho nm]"
  proof (cases "access (host s) filePath")
    case (Some msg)
    then show ?thesis by (simp add: runBody_inaccessible)
  next
    case None
    show ?thesis
    proof (cases "resolve (host s) filePath")
      case (Inl msg)
      with None show ?thesis by (simp add: runBody_unresolved)
    next
      case (Inr f)
      with assms None obtain e h where
        "prog f ((host s)\<lparr>cache := insert f (cache (host s))\<rparr>) = (Some e, h)" "e \<noteq> Nullish"
        by auto
      with None Inr have "runBody prog r nm filePath ?s0 =
          (Some e, (uncached f ?s0)\<lparr>host := h\<lparr>cache := cache h - {f}\<rparr>,
                                     evaluated := evaluated ?s0 @ [f]\<rparr>)" "e \<noteq> Nullish"
        by (simp_all add: runBody_throws)
      then show ?thesis by simp
    qed
  qed
  then obtain e s' where b: "runBody prog r nm filePath ?s0 = (Some e, s')" "e \<noteq> Nullish"
    "results s' = results s" "console s' = console s @ [Cabecalho nm]"
    by blast
  from b(2) obtain m where m: "message e = Inr m"
    by (cases e) (simp_all add: message_def)
  with b(1) have run: "runBenchmark prog r nm filePath s =
      (None, print [ErroExecutar filePath m, CertifiqueSe] s')"
    by (simp add: runBenchmark_def)
  have "console (snd (runBenchmark prog r nm filePath s)) =
      console s @ [Cabecalho nm, ErroExecutar filePath m, CertifiqueSe]"
    using b(4) by (simp add: run)
  then have "\<exists>m. console (snd (runBenchmark prog r nm filePath s)) =
      console s @ [Cabecalho nm, ErroExecutar filePath m, CertifiqueSe]" by (rule exI)
  moreover have "results (snd (runBenchmark prog r nm filePath s)) = results s"
    using b(3) by (simp add: run)
  moreover have "fst (runBenchmark prog r nm filePath s) = None" by (simp add: run)
  ultimately show ?thesis by simp
qed

text \<open>Whatever a run does, it never removes or changes the results already recorded.\<close>

lemma failed_run_keeps_results:
  assumes "(\<exists>msg. access (host s) filePath = Some msg) \<or>
           (\<exists>msg. resolve (host s) filePath = Inl msg) \<or>
           (\<exists>f e h. resolve (host s) filePath = Inr f \<and>
              prog f ((host s)\<lparr>cache := insert f (cache (host s))\<rparr>) = (Some e, h))"
  shows "results (snd (runBenchmark prog r nm filePath s)) = results s"
proof (cases "access (host s) filePath")
  case (Some msg)
  then show ?thesis
    by (simp add: runBenchmark_def runBody_inaccessible message_def)
next
  case None
  show ?thesis
  proof (cases "resolve (host s) filePath")
    case (Inl msg)
    with None show ?thesis
      by (simp add: runBenchmark_def runBody_unresolved message_def)
  next
    case (Inr f)
    with assms None obtain e h where
      p: "prog f ((host s)\<lparr>cache := insert f (cache (host s))\<rparr>) = (Some e, h)"
      by auto
    show ?thesis
      unfolding runBenchmark_throws [where prog = prog and s = s and p = filePath and f = f
          and h = h and e = e and r = r and nm = nm, OF None Inr p]
      by (cases e) (simp_all add: message_def)
  qed
qed

lemmas sample_simps = newRunner_def sampleHost_def sampleProgram_def sampleReadings_def
  runBenchmark_def runBody_def require_def uncached_def message_def print_def

text \<open>
  C3: an inaccessible path or a throwing unit appends nothing to the results.  Reporting
  the error and returning normally depend on the value thrown: the handler reads
  \<open>error.message\<close> without a guard.  A unit that is the one statement \<open>throw null\<close> makes
  the handler throw a \<open>TypeError\<close> before it prints a line, and the promise returned by
  \<open>runBenchmark\<close> is rejected with it; only the header line was printed.  A unit that
  throws an \<open>Error\<close> is reported and the call returns normally.
\<close>

theorem thrown_null_escapes_handler:
  "fst (runBenchmark sampleProgram sampleReadings ''Nulo'' ''./nulo.js''
     (newRunner sampleHost)) =
     Some (Error ''TypeError: Cannot read properties of null or undefined'') \<and>
   console (snd (runBenchmark sampleProgram sampleReadings ''Nulo'' ''./nulo.js''
     (newRunner sampleHost))) = [Cabecalho ''Nulo''] \<and>
   results (snd (runBenchmark sampleProgram sampleReadings ''Nulo'' ''./nulo.js''
     (newRunner sampleHost))) = [] \<and>
   fst (runBenchmark sampleProgram sampleReadings ''POO'' ''./poo.js''
     (newRunner sampleHost)) = None \<and>
   console (snd (runBenchmark sampleProgram sampleReadings ''POO'' ''./poo.js''
     (newRunner sampleHost))) =
     [Cabecalho ''POO'', ErroExecutar ''./poo.js'' (Some ''ENOENT: dados.csv''), CertifiqueSe] \<and>
   results (snd (runBenchmark sampleProgram sampleReadings ''POO'' ''./poo.js''
     (newRunner sampleHost))) = []"
  by (simp add: sample_simps)

text \<open>
  C4: every run whose path is accessible and resolves to a module runs the top-level code
  of that module once more, whatever the module cache holds: the entry is deleted before
  \<open>require\<close> is called.  The unit is run on the host as the call found it (with the module
  registered in the cache, as the loader does before running it), and the host the run
  leaves behind is the host the unit produced: every effect of the unit's top-level code
  is applied again.  When the unit throws, the loader removes the module from the cache
  again.  (A plain \<open>require\<close> of a cached module would change nothing.)
\<close>

theorem every_run_evaluates_unit:
  assumes "access (host s) filePath = None" "resolve (host s) filePath = Inr f"
    "prog f ((host s)\<lparr>cache := insert f (cache (host s))\<rparr>) = (e, h)"
  shows "evaluated (snd (runBenchmark prog r nm filePath s)) = evaluated s @ [f] \<and>
         host (snd (runBenchmark prog r nm filePath s)) =
           (case e of None \<Rightarrow> h | Some v \<Rightarrow> h\<lparr>cache := cache h - {f}\<rparr>) \<and>
         (f \<in> cache (host s) \<longrightarrow> require prog filePath s = (None, s))"
proof -
  have run: "evaluated (snd (runBenchmark prog r nm filePath s)) = evaluated s @ [f] \<and>
         host (snd (runBenchmark prog r nm filePath s)) =
           (case e of None \<Rightarrow> h | Some v \<Rightarrow> h\<lparr>cache := cache h - {f}\<rparr>)"
  proof (cases e)
    case None
    with assms(3) have p: "prog f ((host s)\<lparr>cache := insert f (cache (host s))\<rparr>) = (None, h)"
      by simp
    have "evaluated (snd (runBenchmark prog r nm filePath s)) = evaluated s @ [f]"
      by (rule runBenchmark_completes(3) [where prog = prog and s = s and p = filePath
            and f = f and h = h and r = r and nm = nm, OF assms(1,2) p])
    moreover have "host (snd (runBenchmark prog r nm filePath s)) = h"
      by (rule runBenchmark_completes(2) [where prog = prog and s = s and p = filePath
            and f = f and h = h and r = r and nm = nm, OF assms(1,2) p])
    ultimately show ?thesis using None by simp
  next
    case (Some v)
    with assms(3) have p: "prog f ((host s)\<lparr>cache := insert f (cache (host s))\<rparr>) = (Some v, h)"
      by simp
    show ?thesis
      unfolding runBenchmark_throws [where prog = prog and s = s and p = filePath and f = f
        and h = h and e = v and r = r and nm = nm, OF assms(1,2) p]
      using Some by (cases v) (simp_all add: message_def)
  qed
  moreover have "f \<in> cache (host s) \<longrightarrow> require prog filePath s = (None, s)"
    using assms(2) by (simp add: require_cached)
  ultimately show ?thesis by simp
qed

theorem every_run_evaluates_unit_witness:
  "readFileSync sampleHost ''./contador.txt'' = Inl ''ENOENT'' \<and>
   readFileSync (host (snd (runBenchmark sampleProgram sampleReadings ''Conta''
     ''./conta.js'' (newRunner sampleHost)))) ''./contador.txt'' = Inr [0x2B] \<and>
   ''/repo/conta.js'' \<in> cache (host (snd
     (runBenchmark sampleProgram sampleReadings ''Conta'' ''./conta.js''
       (newRunner sampleHost)))) \<and>
   readFileSync (host (snd (runBenchmark sampleProgram sampleReadings ''Outra vez''
     ''./conta.js'' (snd (runBenchmark sampleProgram sampleReadings ''Conta'' ''./conta.js''
       (newRunner sampleHost)))))) ''./contador.txt'' = Inr [0x2B, 0x2B] \<and>
   evaluated (snd (runBenchmark sampleProgram sampleReadings ''Outra vez'' ''./conta.js''
     (snd (runBenchmark sampleProgram sampleReadings ''Conta'' ''./conta.js''
       (newRunner sampleHost))))) = [''/repo/conta.js'', ''/repo/conta.js'']"
proof -
  let ?s = "newRunner sampleHost"
  let ?s1 = "snd (runBenchmark sampleProgram sampleReadings ''Conta'' ''./conta.js'' ?s)"
  let ?s2 = "snd (runBenchmark sampleProgram sampleReadings ''Outra vez'' ''./conta.js'' ?s1)"
  let ?h1 = "snd (sampleProgram ''/repo/conta.js''
      ((host ?s)\<lparr>cache := insert ''/repo/conta.js'' (cache (host ?s))\<rparr>))"
  let ?h2 = "snd (sampleProgram ''/repo/conta.js''
      ((host ?s1)\<lparr>cache := insert ''/repo/conta.js'' (cache (host ?s1))\<rparr>))"
  have a: "access (host ?s) ''./conta.js'' = None"
    and b: "resolve (host ?s) ''./conta.js'' = Inr ''/repo/conta.js''"
    by (simp_all add: newRunner_def sampleHost_def)
  have c: "sampleProgram ''/repo/conta.js''
      ((host ?s)\<lparr>cache := insert ''/repo/conta.js'' (cache (host ?s))\<rparr>) = (None, ?h1)"
    by (simp add: sampleProgram_def)
  have e0: "evaluated ?s = []" by (simp add: newRunner_def)
  from every_run_evaluates_unit [where prog = sampleProgram and s = ?s
      and filePath = "''./conta.js''" and f = "''/repo/conta.js''" and e = None and h = ?h1
      and r = sampleReadings and nm = "''Conta''", OF a b c] e0
  have first: "evaluated ?s1 = [''/repo/conta.js'']" and hs: "host ?s1 = ?h1"
    by simp_all
  have h1: "access ?h1 = access sampleHost" "resolve ?h1 = resolve sampleHost"
    "cache ?h1 = {''/repo/conta.js''}"
    "readFileSync ?h1 ''./contador.txt'' = Inr [0x2B]"
    by (simp_all add: sampleProgram_def newRunner_def sampleHost_def)
  have a1: "access (host ?s1) ''./conta.js'' = None"
    and b1: "resolve (host ?s1) ''./conta.js'' = Inr ''/repo/conta.js''"
    unfolding hs h1 by (simp_all add: sampleHost_def)
  have c1: "sampleProgram ''/repo/conta.js''
      ((host ?s1)\<lparr>cache := insert ''/repo/conta.js'' (cache (host ?s1))\<rparr>) = (None, ?h2)"
    by (simp add: sampleProgram_def)
  from every_run_evaluates_unit [where prog = sampleProgram and s = ?s1
      and filePath = "''./conta.js''" and f = "''/repo/conta.js''" and e = None and h = ?h2
      and r = sampleReadings and nm = "''Outra vez''", OF a1 b1 c1] first
  have second: "evaluated ?s2 = [''/repo/conta.js'', ''/repo/conta.js'']"
    and hs2: "host ?s2 = ?h2"
    by simp_all
  have "readFileSync ?h2 ''./contador.txt'' = Inr [0x2B, 0x2B]"
    unfolding hs by (simp add: sampleProgram_def newRunner_def sampleHost_def)
  then have r2: "readFileSync (host ?s2) ''./contador.txt'' = Inr [0x2B, 0x2B]"
    by (simp only: hs2)
  have r1: "readFileSync (host ?s1) ''./contador.txt'' = Inr [0x2B]"
    by (simp only: hs h1)
  have m1: "''/repo/conta.js'' \<in> cache (host ?s1)" by (simp only: hs h1) simp
  have r0: "readFileSync sampleHost ''./contador.txt'' = Inl ''ENOENT''"
    by (simp add: sampleHost_def)
  from r0 r1 m1 r2 second show ?thesis by (simp only:) 
qed

text \<open>
  The elapsed time is a finite number: neither the conversion of the difference nor the
  division comes near \<open>2^1024\<close>.
\<close>

lemma elapsed_finite: "\<bar>elapsed r\<bar> \<le> pow2 64"
proof -
  define d where "d = uint (endTime r) - uint (startTime r)"
  define y where "y = nearest (rat_of_int d) / 1000000"
  have bound: "\<bar>nearest x\<bar> \<le> pow2 64" if "\<bar>x\<bar> < pow2 64" for x
  proof (cases "x = 0")
    case True
    then show ?thesis using pow2_pos [of 64] by (simp add: nearest_def)
  next
    case False
    then have "0 < \<bar>x\<bar>" by simp
    from nearest_le_pow2 [OF this that] show ?thesis by (simp add: nearest_abs)
  qed
  have "uint (endTime r) < 2 ^ 64" "uint (startTime r) < 2 ^ 64"
    "0 \<le> uint (endTime r)" "0 \<le> uint (startTime r)"
    using uint_bounded [of "endTime r"] uint_bounded [of "startTime r"] by simp_all
  then have "\<bar>d\<bar> < 2 ^ 64" unfolding d_def by linarith
  then have "rat_of_int \<bar>d\<bar> < rat_of_int (2 ^ 64)" by (simp only: of_int_less_iff)
  then have "\<bar>rat_of_int d\<bar> < pow2 64" by (simp add: pow2_def)
  from bound [OF this] have n: "\<bar>nearest (rat_of_int d)\<bar> \<le> pow2 64" .
  have "\<bar>y\<bar> = \<bar>nearest (rat_of_int d)\<bar> / 1000000" by (simp add: y_def)
  also have "\<dots> \<le> \<bar>nearest (rat_of_int d)\<bar> / 2" 
    by (simp add: field_simps)
  also have "\<dots> \<le> pow2 64 / 2" using n by simp
  also have "\<dots> < pow2 64" using pow2_pos [of 64] by simp
  finally have "\<bar>y\<bar> < pow2 64" .
  from bound [OF this] show ?thesis by (simp add: elapsed_def y_def d_def)
qed

text \<open>
  C8: when the unit runs to completion but the file cannot be read afterwards, the result
  is still appended, with its time and memory measurements and with no file statistics;
  the call returns normally and the last line printed is the warning about the file.
\<close>

theorem unreadable_artifact_keeps_result:
  assumes "access (host s) filePath = None" "resolve (host s) filePath = Inr f"
    "prog f ((host s)\<lparr>cache := insert f (cache (host s))\<rparr>) = (None, h)"
    "readFileSync h filePath = Inl msg"
  shows "fst (runBenchmark prog r nm filePath s) = None \<and>
         results (snd (runBenchmark prog r nm filePath s)) =
           results s @
           [\<lparr>name = nm, executionTime = elapsed r, memory = endMemory r,
             memoryDiff = memoryDelta r, fileStats = None\<rparr>] \<and>
         last (console (snd (runBenchmark prog r nm filePath s))) = AvisoAnalise filePath msg"
proof -
  let ?s0 = "print [Cabecalho nm] s"
  let ?s2 = "showMemoryUsage (endMemory r) (Some (memoryDelta r))
            (print [TempoFim nm] ((uncached f ?s0)\<lparr>host := h,
               evaluated := evaluated ?s0 @ [f]\<rparr>))"
  have a0: "access (host ?s0) filePath = None" "resolve (host ?s0) filePath = Inr f"
    "prog f ((host ?s0)\<lparr>cache := insert f (cache (host ?s0))\<rparr>) = (None, h)"
    using assms by simp_all
  have "readFileSync (host ?s2) filePath = Inl msg" using assms(4) by simp
  then have an: "analyzeFile filePath ?s2 = (None, print [AvisoAnalise filePath msg] ?s2)"
    by (rule analyzeFile_unreadable)
  note runBody_completes [where prog = prog and s = ?s0 and p = filePath and f = f
      and h = h and r = r and nm = nm and st = None
      and ?s3.0 = "print [AvisoAnalise filePath msg] ?s2", OF a0 an]
  then show ?thesis by (simp add: runBenchmark_def)
qed

lemma elapsed_sample: "elapsed sampleReadings = 5 / 2"
  by (simp add: elapsed_def sampleReadings_def number_simps)

theorem unreadable_artifact_keeps_result_witness:
  "results (snd (runBenchmark sampleProgram sampleReadings ''Apaga'' ''./apaga.js''
     (newRunner sampleHost))) =
     [\<lparr>name = ''Apaga'', executionTime = 5 / 2,
       memory = \<lparr>rss = 41000000, heapTotal = 6000000, heapUsed = 3900000\<rparr>,
       memoryDiff = \<lparr>rss = 1000000, heapTotal = 0, heapUsed = - 100000\<rparr>,
       fileStats = None\<rparr>]"
proof -
  let ?s = "newRunner sampleHost"
  let ?h = "(host ?s)\<lparr>cache := insert ''/repo/apaga.js'' (cache (host ?s))\<rparr>"
  let ?h' = "?h\<lparr>readFileSync :=
      (\<lambda>p. if p = ''./apaga.js'' then Inl ''ENOENT'' else readFileSync ?h p)\<rparr>"
  have a: "access (host ?s) ''./apaga.js'' = None"
    and b: "resolve (host ?s) ''./apaga.js'' = Inr ''/repo/apaga.js''"
    by (simp_all add: newRunner_def sampleHost_def)
  have c: "sampleProgram ''/repo/apaga.js'' ?h = (None, ?h')"
    by (simp add: sampleProgram_def)
  have d: "readFileSync ?h' ''./apaga.js'' = Inl ''ENOENT''" by simp
  from unreadable_artifact_keeps_result [where prog = sampleProgram and s = ?s
      and filePath = "''./apaga.js''" and f = "''/repo/apaga.js''" and h = ?h'
      and msg = "''ENOENT''" and r = sampleReadings and nm = "''Apaga''", OF a b c d]
  show ?thesis
    unfolding elapsed_sample by (simp add: newRunner_def memoryDelta_def sampleReadings_def)
qed

end
